theory Spec2Isabelle
  imports Complex_Main "HOL-Library.Word" "HOL-Library.Multiset"
begin

section \<open>Particles and geometry helpers\<close>

text \<open>
  Positions are arrays of three doubles. The double coordinates are idealised as reals:
  all comparisons of the code are kept, rounding and NaN are not modelled.
\<close>

type_synonym vec3 = "real \<times> real \<times> real"

datatype OwnershipState = dummyState | owned | halo

text \<open>A particle class offers at least position, velocity and id (the three arguments of the
  constructor the containers rely on); the full particle adds the ownership state.\<close>

record ParticleBase =
  getR :: vec3
  getV :: vec3
  getID :: nat

record Particle = ParticleBase +
  ownershipState :: OwnershipState

definition isDummy :: "Particle \<Rightarrow> bool" where
  "isDummy p = (ownershipState p = dummyState)"


text \<open>\<open>utils::ArrayMath::sub\<close> and \<open>utils::ArrayMath::dot\<close>: component-wise difference and
  scalar product of two arrays of length three.\<close>

fun sub :: "vec3 \<Rightarrow> vec3 \<Rightarrow> vec3" where
  "sub (a0, a1, a2) (b0, b1, b2) = (a0 - b0, a1 - b1, a2 - b2)"

fun dot :: "vec3 \<Rightarrow> vec3 \<Rightarrow> real" where
  "dot (a0, a1, a2) (b0, b1, b2) = a0 * b0 + a1 * b1 + a2 * b2"

text \<open>Modelled from the spec: \<open>autopas::inBox\<close> (utils/inBox.h is not part of the sources at
  hand). The spec fixes the box as the half-open interval \<open>[boxMin, boxMax)\<close> in every
  dimension.\<close>

fun inBox :: "vec3 \<Rightarrow> vec3 \<Rightarrow> vec3 \<Rightarrow> bool" where
  "inBox (p0, p1, p2) (l0, l1, l2) (h0, h1, h2) =
     (l0 \<le> p0 \<and> p0 < h0 \<and> l1 \<le> p1 \<and> p1 < h1 \<and> l2 \<le> p2 \<and> p2 < h2)"


section \<open>FlopCounterFunctor\<close>

text \<open>The two counters are atomic \<open>size_t\<close> values: 64-bit words, \<open>fetch_add\<close> wraps.\<close>

record FlopCounterFunctor =
  cutoffSquare :: real
  distanceCalculations :: "64 word"
  kernelCalls :: "64 word"

definition AoSFunctor :: "Particle \<Rightarrow> Particle \<Rightarrow> bool \<Rightarrow> FlopCounterFunctor \<Rightarrow> FlopCounterFunctor" where
  "AoSFunctor i j newton3 f =
     (if isDummy i \<or> isDummy j then f
      else
        let dr = sub (getR i) (getR j);
            dr2 = dot dr dr;
            f1 = f\<lparr>distanceCalculations := distanceCalculations f + 1\<rparr>
        in if dr2 \<le> cutoffSquare f1 then f1\<lparr>kernelCalls := kernelCalls f1 + 1\<rparr> else f1)"

text \<open>The squared Euclidean distance of two positions, written out.\<close>

fun squaredDistance :: "vec3 \<Rightarrow> vec3 \<Rightarrow> real" where
  "squaredDistance (a0, a1, a2) (b0, b1, b2) = (a0 - b0)\<^sup>2 + (a1 - b1)\<^sup>2 + (a2 - b2)\<^sup>2"

section \<open>DirectSum\<close>

text \<open>\<open>utils::ExceptionHandler::exception\<close> raises an exception that carries the given message.
  The container holds exactly two cells: cell 0 owns, cell 1 is the halo cell.\<close>

record ParticleContainer =
  boxMin :: vec3
  boxMax :: vec3

record DirectSum = ParticleContainer +
  ownedCell :: "Particle list"
  haloCell :: "Particle list"

text \<open>Both operations return the container after the call together with the diagnostic of the
  raised exception, if one was raised.\<close>

definition addParticle :: "Particle \<Rightarrow> DirectSum \<Rightarrow> DirectSum \<times> string option" where
  "addParticle p c =
     (if inBox (getR p) (boxMin c) (boxMax c)
      then (c\<lparr>ownedCell := ownedCell c @ [p]\<rparr>, None)
      else (c, Some ''DirectSum: trying to add particle that is not in the bounding box''))"

definition addHaloParticle :: "Particle \<Rightarrow> DirectSum \<Rightarrow> DirectSum \<times> string option" where
  "addHaloParticle p c =
     (if \<not> inBox (getR p) (boxMin c) (boxMax c)
      then (c\<lparr>haloCell := haloCell c @ [p]\<rparr>, None)
      else (c, Some ''DirectSum: trying to add particle that is not OUTSIDE of the bounding box''))"

section \<open>ParticleClassLibrary\<close>

text \<open>\<open>std::map::at\<close> throws \<open>std::out_of_range\<close> for a missing key.\<close>

datatype error = OutOfRange | DivisionByZero | Exception string

record ParticleClassLibrary =
  Epsilon :: "nat \<rightharpoonup> real"
  Sigma :: "nat \<rightharpoonup> real"
  Mass :: "nat \<rightharpoonup> real"

definition at_map :: "('k \<rightharpoonup> 'v) \<Rightarrow> 'k \<Rightarrow> error + 'v" where
  "at_map m k = (case m k of None \<Rightarrow> Inl OutOfRange | Some v \<Rightarrow> Inr v)"

definition mixingE :: "ParticleClassLibrary \<Rightarrow> nat \<Rightarrow> nat \<Rightarrow> error + real" where
  "mixingE lib i j =
     (case at_map (Epsilon lib) i of Inl e \<Rightarrow> Inl e
      | Inr ei \<Rightarrow> (case at_map (Epsilon lib) j of Inl e \<Rightarrow> Inl e
         | Inr ej \<Rightarrow> Inr (sqrt (ei + ej))))"

definition mixing24E :: "ParticleClassLibrary \<Rightarrow> nat \<Rightarrow> nat \<Rightarrow> error + real" where
  "mixing24E lib i j =
     (case at_map (Epsilon lib) i of Inl e \<Rightarrow> Inl e
      | Inr ei \<Rightarrow> (case at_map (Epsilon lib) j of Inl e \<Rightarrow> Inl e
         | Inr ej \<Rightarrow> Inr (24 * sqrt (ei + ej))))"

text \<open>\<open>ParticlePropertiesLibraryTest::mixingE\<close>, the rule the test computes its expected
  values with.\<close>

definition test_mixingE :: "real \<Rightarrow> real \<Rightarrow> real" where
  "test_mixingE e1 e2 = sqrt (e1 * e2)"

section \<open>FullSearchMPI: division of the search space among the ranks\<close>

text \<open>
  A configuration is the tuple (container, cell size factor, traversal, data layout, newton3).
  The option sets are \<open>std::set\<close>s, iterated in ascending order: they are given as the lists
  of their elements in that order. The table \<open>compatibleTraversals::allCompatibleTraversals\<close>
  is not part of the sources at hand and is the parameter \<open>compatible\<close>. The counters
  \<open>i\<close>, \<open>start\<close>, \<open>startNext\<close>, the rank and the number of ranks are \<open>int\<close> in the code.
\<close>

type_synonym ('k, 'f, 't, 'd, 'n) Configuration = "'k \<times> 'f \<times> 't \<times> 'd \<times> 'n"

definition allowedAndApplicable :: "('k \<Rightarrow> 't list) \<Rightarrow> 't list \<Rightarrow> 'k \<Rightarrow> 't list" where
  "allowedAndApplicable allCompatibleTraversals allowedTraversalOptions containerOption =
     filter (\<lambda>t. t \<in> set (allCompatibleTraversals containerOption)) allowedTraversalOptions"

text \<open>The count of the constructor's first loop.\<close>

definition totalNumConfigs ::
  "('k \<Rightarrow> 't list) \<Rightarrow> 'k list \<Rightarrow> 'f list \<Rightarrow> 't list \<Rightarrow> 'd list \<Rightarrow> 'n list \<Rightarrow> int" where
  "totalNumConfigs compatible cs fs ts ds ns =
     foldl (\<lambda>total k. total + int (length fs * length (allowedAndApplicable compatible ts k)
                                   * length ds * length ns)) 0 cs"

text \<open>The configurations in the order in which the five nested loops of
  \<open>populateSearchSpace\<close> visit them.\<close>

definition potentialConfigs ::
  "('k \<Rightarrow> 't list) \<Rightarrow> 'k list \<Rightarrow> 'f list \<Rightarrow> 't list \<Rightarrow> 'd list \<Rightarrow> 'n list
     \<Rightarrow> ('k, 'f, 't, 'd, 'n) Configuration list" where
  "potentialConfigs compatible cs fs ts ds ns =
     concat (map (\<lambda>k. concat (map (\<lambda>f. concat (map (\<lambda>t. concat (map (\<lambda>d.
        map (\<lambda>n. (k, f, t, d, n)) ns) ds)) (allowedAndApplicable compatible ts k))) fs)) cs)"

text \<open>The body of the innermost loop, run over that order: skip while \<open>i < start\<close>, leave
  the function at \<open>i = startNext\<close>, insert otherwise.\<close>

fun populateLoop :: "int \<Rightarrow> int \<Rightarrow> int \<Rightarrow> 'c list \<Rightarrow> 'c list \<Rightarrow> 'c list" where
  "populateLoop i start startNext [] searchSpace = searchSpace"
| "populateLoop i start startNext (c # cs) searchSpace =
     (if i < start then populateLoop (i + 1) start startNext cs searchSpace
      else if i = startNext then searchSpace
      else populateLoop (i + 1) start startNext cs (searchSpace @ [c]))"

definition populateSearchSpace ::
  "('k \<Rightarrow> 't list) \<Rightarrow> 'k list \<Rightarrow> 'f list \<Rightarrow> 't list \<Rightarrow> 'd list \<Rightarrow> 'n list \<Rightarrow> int \<Rightarrow> int
     \<Rightarrow> ('k, 'f, 't, 'd, 'n) Configuration list \<Rightarrow> ('k, 'f, 't, 'd, 'n) Configuration list" where
  "populateSearchSpace compatible cs fs ts ds ns start startNext searchSpace =
     populateLoop 0 start startNext (potentialConfigs compatible cs fs ts ds ns) searchSpace"

text \<open>The constructor: the search space of the rank, or the exception it raises.\<close>

definition FullSearchMPI ::
  "('k \<Rightarrow> 't list) \<Rightarrow> 'k list \<Rightarrow> 'f list \<Rightarrow> 't list \<Rightarrow> 'd list \<Rightarrow> 'n list \<Rightarrow> int \<Rightarrow> int
     \<Rightarrow> error + ('k, 'f, 't, 'd, 'n) Configuration list" where
  "FullSearchMPI compatible cs fs ts ds ns worldSize worldRank =
     (let total = totalNumConfigs compatible cs fs ts ds ns;
          blockSize = total div worldSize;
          remainder = total mod worldSize;
          start = blockSize * worldRank + (if worldRank < remainder then worldRank else remainder);
          startNext = blockSize * (worldRank + 1)
                      + (if worldRank < remainder then worldRank + 1 else remainder);
          searchSpace = populateSearchSpace compatible cs fs ts ds ns start startNext []
      in if searchSpace = []
         then (let searchSpace2 = populateSearchSpace compatible cs fs ts ds ns 0 total []
               in if searchSpace2 = []
                  then Inl (Exception ''No valid configuration could be generated'')
                  else Inr searchSpace2)
         else Inr searchSpace)"

text \<open>The block of rank \<open>r\<close> as the specification words it: its first index, its size and
  its set of indices.\<close>

definition rankStart :: "nat \<Rightarrow> nat \<Rightarrow> nat \<Rightarrow> nat" where
  "rankStart n w r = r * (n div w) + min r (n mod w)"

definition rankSize :: "nat \<Rightarrow> nat \<Rightarrow> nat \<Rightarrow> nat" where
  "rankSize n w r = (if r < n mod w then n div w + 1 else n div w)"

definition rankBlock :: "nat \<Rightarrow> nat \<Rightarrow> nat \<Rightarrow> nat set" where
  "rankBlock n w r = {rankStart n w r ..< rankStart n w r + rankSize n w r}"

section \<open>ClusterTower\<close>

text \<open>
  \<open>VerletClusterLists::clusterSize\<close>, the template argument of every tower. The tower is a
  template over the particle class; sorting, cluster generation and the dummies are modelled
  for the minimal particle class. \<open>size_t\<close> counts are natural numbers (the vector of a tower
  never comes near \<open>2^64\<close> elements).
\<close>

definition clusterSize :: nat where
  "clusterSize = 4"

definition DBL_MAX :: real where
  "DBL_MAX = 2 ^ 1024 - 2 ^ 971"

text \<open>A cluster is the address of its first particle: here the index of that particle in the
  particle vector of the tower.\<close>

record 'p ClusterTower =
  clusters :: "nat list"
  particles :: "'p list"
  numDummyParticles :: nat

text \<open>The prototype \<open>ClusterTower::dummy\<close>.\<close>

definition dummy :: ParticleBase where
  "dummy = \<lparr>getR = (DBL_MAX, DBL_MAX, DBL_MAX), getV = (0, 0, 0), getID = 0\<rparr>"

definition emptyTower :: "ParticleBase ClusterTower" where
  "emptyTower = \<lparr>clusters = [], particles = [], numDummyParticles = 0\<rparr>"

definition towerAddParticle :: "'p \<Rightarrow> 'p ClusterTower \<Rightarrow> 'p ClusterTower" where
  "towerAddParticle p t = t\<lparr>particles := particles t @ [p]\<rparr>"

definition clear :: "'p ClusterTower \<Rightarrow> 'p ClusterTower" where
  "clear t = t\<lparr>clusters := [], particles := [], numDummyParticles := 0\<rparr>"

definition getNumDummyParticles :: "'p ClusterTower \<Rightarrow> nat" where
  "getNumDummyParticles t = numDummyParticles t"

definition getNumActualParticles :: "'p ClusterTower \<Rightarrow> nat" where
  "getNumActualParticles t = length (particles t) - numDummyParticles t"

definition getNumClusters :: "'p ClusterTower \<Rightarrow> nat" where
  "getNumClusters t = length (clusters t)"

text \<open>Modelled from the spec: \<open>FullParticleCell::sortByDim\<close> (the cell class is not part of the
  sources at hand). Sorting by a coordinate axis is stable and does not change membership.\<close>

fun coordinate :: "nat \<Rightarrow> vec3 \<Rightarrow> real" where
  "coordinate d (x, y, z) = (if d = 0 then x else if d = 1 then y else z)"

definition sortByDim :: "nat \<Rightarrow> ParticleBase list \<Rightarrow> ParticleBase list" where
  "sortByDim d ps = sort_key (\<lambda>p. coordinate d (getR p)) ps"

text \<open>\<open>generateClusters\<close> returns the tower after the call and the returned number of
  clusters.\<close>

definition generateClusters :: "ParticleBase ClusterTower \<Rightarrow> ParticleBase ClusterTower \<times> nat" where
  "generateClusters t =
     (if getNumActualParticles t > 0 then
        let sorted = sortByDim 2 (particles t);
            sizeLastCluster = length sorted mod clusterSize;
            nd = (if sizeLastCluster \<noteq> 0 then clusterSize - sizeLastCluster else 0);
            lastParticle = sorted ! (length sorted - 1);
            filled = sorted @ replicate nd lastParticle;
            numClusters = length filled div clusterSize;
            t' = \<lparr>clusters = clusters t @ map (\<lambda>index. clusterSize * index) [0..<numClusters],
                  particles = filled, numDummyParticles = nd\<rparr>
        in (t', getNumClusters t')
      else (t, getNumClusters t))"

text \<open>
  \<open>fillUpWithDummyParticles\<close>: slot \<open>clusterSize - index\<close> of the last cluster is overwritten
  for \<open>index = 1, \<dots>, _numDummyParticles\<close>. The accesses are unchecked in the code; the model
  reports an access outside the particle vector as an error. With no dummies the loop body
  never runs and the tower is returned as it is.
\<close>

definition setR :: "vec3 \<Rightarrow> ParticleBase \<Rightarrow> ParticleBase" where
  "setR pos p = p\<lparr>getR := pos\<rparr>"

definition fillSlot :: "nat \<Rightarrow> real \<Rightarrow> real \<Rightarrow> ParticleBase list \<Rightarrow> nat \<Rightarrow> ParticleBase list" where
  "fillSlot lastCluster dummyStartX dummyDistZ ps index =
     ps[lastCluster + (clusterSize - index) :=
          setR (dummyStartX, 0, dummyDistZ * real index) dummy]"

definition fillUpWithDummyParticles ::
  "real \<Rightarrow> real \<Rightarrow> ParticleBase ClusterTower \<Rightarrow> error + ParticleBase ClusterTower" where
  "fillUpWithDummyParticles dummyStartX dummyDistZ t =
     (if numDummyParticles t = 0 then Inr t
      else if clusters t = [] then Inl OutOfRange
      else
        let lastCluster = clusters t ! (getNumClusters t - 1)
        in if numDummyParticles t \<le> clusterSize \<and> lastCluster + clusterSize \<le> length (particles t)
           then Inr (t\<lparr>particles :=
                        foldl (fillSlot lastCluster dummyStartX dummyDistZ) (particles t)
                          [1..<Suc (numDummyParticles t)]\<rparr>)
           else Inl OutOfRange)"

section \<open>PredictiveTuning\<close>

text \<open>
  Integer types as in the code on an LP64 platform: \<open>size_t\<close> and \<open>long\<close> are 64-bit words
  (a \<open>long\<close> is read in two's complement), \<open>unsigned int\<close> is a 32-bit word. An evidence is the
  pair (iteration, time) of type \<open>std::pair<size_t, long>\<close>.
\<close>

type_synonym evidence = "64 word \<times> 64 word"

text \<open>
  The body of the loop of \<open>linePrediction\<close> for one configuration. \<open>traversal1\<close> is the newest
  sample, \<open>traversal2\<close> the one before. The difference of the two times is a \<open>long\<close>; dividing it
  by the \<open>size_t\<close> difference of the iterations converts it to \<open>unsigned long\<close>, so the division
  and everything after it are unsigned 64-bit operations. Reading before the start of the
  vector and dividing by zero are undefined in the code and reported as errors here.
\<close>

definition linePredictionOf :: "32 word \<Rightarrow> evidence list \<Rightarrow> error + 64 word" where
  "linePredictionOf iterationBeginTuningPhase vector =
     (if length vector < 2 then Inl OutOfRange
      else
        let traversal1 = vector ! (length vector - 1);
            traversal2 = vector ! (length vector - 2)
        in if fst traversal1 - fst traversal2 = 0 then Inl DivisionByZero
           else
             let gradient = (snd traversal1 - snd traversal2) div (fst traversal1 - fst traversal2);
                 delta = ucast iterationBeginTuningPhase - fst traversal1
             in Inr (snd traversal1 + gradient * delta))"

text \<open>
  An iterator into one of the three \<open>std::set\<close>s of the strategy: the set it belongs to and its
  position in the ascending order; the position equal to the size is \<open>end()\<close>. Iterators of
  different sets never compare equal.
\<close>

datatype whichSet = InSearchSpace | InOptimal | InTooLong

type_synonym iterator = "whichSet \<times> nat"

text \<open>
  The sets of configurations are the lists of their elements in ascending order; the
  \<open>unordered_map\<close>s that are only indexed are total functions yielding the default value
  (an empty vector, zero) for a missing key; the two maps that are searched for their optimum
  are association lists.
\<close>

record 'c PredictiveTuning =
  searchSpace :: "'c list"
  currentConfig :: iterator
  traversalTimesStorage :: "'c \<Rightarrow> evidence list"
  configurationPredictions :: "('c \<times> 64 word) list"
  optimalSearchSpace :: "'c list"
  tooLongNotTestedSearchSpace :: "'c list"
  validSearchSpace :: "'c list"
  lastTest :: "'c \<Rightarrow> 64 word"
  tuningIterationsCounter :: "32 word"
  iterationBeginTuningPhase :: "32 word"
  validConfigurationFound :: bool
  relativeOptimumRange :: real
  maxTuningIterationsWithoutTest :: "32 word"



text \<open>\<open>operator[]\<close> of an \<open>unordered_map\<close> with \<open>size_t\<close> values: assignment, and reading, which
  inserts the value 0 for a missing key.\<close>

definition assign :: "'c \<Rightarrow> 64 word \<Rightarrow> ('c \<times> 64 word) list \<Rightarrow> ('c \<times> 64 word) list" where
  "assign c v m = (if c \<in> fst ` set m then map (\<lambda>(k, w). if k = c then (k, v) else (k, w)) m
                   else m @ [(c, v)])"

definition index :: "'c \<Rightarrow> ('c \<times> 64 word) list \<Rightarrow> 64 word \<times> ('c \<times> 64 word) list" where
  "index c m = (case map_of m c of Some v \<Rightarrow> (v, m) | None \<Rightarrow> (0, m @ [(c, 0)]))"


text \<open>The loops are functions of the members they read and of the members they change.\<close>

fun linePrediction ::
  "32 word \<Rightarrow> ('c \<Rightarrow> evidence list) \<Rightarrow> 'c list \<Rightarrow> ('c \<times> 64 word) list
     \<Rightarrow> error + ('c \<times> 64 word) list" where
  "linePrediction begin storage [] predictions = Inr predictions"
| "linePrediction begin storage (configuration # rest) predictions =
     (case linePredictionOf begin (storage configuration) of
        Inl e \<Rightarrow> Inl e
      | Inr prediction \<Rightarrow>
          linePrediction begin storage rest (assign configuration prediction predictions))"

definition calculatePredictions :: "'c PredictiveTuning \<Rightarrow> error + 'c PredictiveTuning" where
  "calculatePredictions s =
     (case linePrediction (iterationBeginTuningPhase s) (traversalTimesStorage s) (searchSpace s)
             (configurationPredictions s) of
        Inl e \<Rightarrow> Inl e
      | Inr predictions \<Rightarrow> Inr (s\<lparr>configurationPredictions := predictions\<rparr>))"




















section \<open>C08BasedTraversal\<close>

text \<open>
  Cell indices and offsets are \<open>unsigned long\<close>. They are natural numbers here: for a grid
  of fewer than \<open>2^63\<close> cells no sum of a cell index and an offset wraps around. The checked
  access \<open>_cells->at(index)\<close> throws for an index outside the cell vector.
\<close>

type_synonym cell3 = "nat \<times> nat \<times> nat"

text \<open>Modelled from the spec: \<open>ThreeDimensionalMapping::threeToOneD\<close>, the 3D to 1D index
  mapping of the cell block (utils/ThreeDimensionalMapping.h is not part of the sources at
  hand): x runs fastest, then y, then z.\<close>

fun threeToOneD :: "nat \<Rightarrow> nat \<Rightarrow> nat \<Rightarrow> cell3 \<Rightarrow> nat" where
  "threeToOneD x y z (dx, dy, dz) = (z * dy + y) * dx + x"

text \<open>The calls made on the cell functor.\<close>

datatype task = ProcessCell nat | ProcessCellPair nat nat

text \<open>\<open>computeOffsets\<close>: the array \<open>_cellPairOffsets\<close> (the offset \<open>o\<close> of the code is called
  \<open>origin\<close>).\<close>

definition computeOffsets :: "cell3 \<Rightarrow> (nat \<times> nat) list" where
  "computeOffsets cellsPerDimension =
     (let origin = threeToOneD 0 0 0 cellsPerDimension;
          x = threeToOneD 1 0 0 cellsPerDimension;
          y = threeToOneD 0 1 0 cellsPerDimension;
          z = threeToOneD 0 0 1 cellsPerDimension;
          xy = threeToOneD 1 1 0 cellsPerDimension;
          yz = threeToOneD 0 1 1 cellsPerDimension;
          xz = threeToOneD 1 0 1 cellsPerDimension;
          xyz = threeToOneD 1 1 1 cellsPerDimension
      in [(origin, origin), (origin, y), (y, z), (origin, z), (origin, yz),
          (x, yz), (x, y), (x, z), (origin, x), (origin, xy), (xy, z), (y, xz),
          (origin, xz), (origin, xyz)])"

text \<open>The loop of \<open>processBaseCell\<close> over the pairs of offsets; \<open>calls\<close> are the calls made so
  far, \<open>cellIndex1\<close> is \<open>baseIndex + offset1\<close> and \<open>cellIndex2\<close> is \<open>baseIndex + offset2\<close>.\<close>

fun processPairs :: "nat \<Rightarrow> nat \<Rightarrow> (nat \<times> nat) list \<Rightarrow> task list \<Rightarrow> error + task list" where
  "processPairs numCells baseIndex [] calls = Inr calls"
| "processPairs numCells baseIndex ((offset1, offset2) # rest) calls =
     (if numCells \<le> baseIndex + offset1 \<or> numCells \<le> baseIndex + offset2 then Inl OutOfRange
      else if baseIndex + offset1 = baseIndex + offset2
      then processPairs numCells baseIndex rest (calls @ [ProcessCell (baseIndex + offset1)])
      else processPairs numCells baseIndex rest
             (calls @ [ProcessCellPair (baseIndex + offset1) (baseIndex + offset2)]))"

definition processBaseCell :: "nat \<Rightarrow> cell3 \<Rightarrow> nat \<Rightarrow> error + task list" where
  "processBaseCell numCells cellsPerDimension baseIndex =
     processPairs numCells baseIndex (computeOffsets cellsPerDimension) []"

text \<open>
  The base step applied to a list of base cells, given by their coordinates, one after the
  other (the order in which a traversal visits the cells does not matter for the set of
  calls).
\<close>

fun applyBaseStep :: "nat \<Rightarrow> cell3 \<Rightarrow> cell3 list \<Rightarrow> error + task list" where
  "applyBaseStep numCells cellsPerDimension [] = Inr []"
| "applyBaseStep numCells cellsPerDimension ((x, y, z) # rest) =
     (case processBaseCell numCells cellsPerDimension (threeToOneD x y z cellsPerDimension) of
        Inl e \<Rightarrow> Inl e
      | Inr tasks \<Rightarrow>
          (case applyBaseStep numCells cellsPerDimension rest of
             Inl e \<Rightarrow> Inl e
           | Inr later \<Rightarrow> Inr (tasks @ later)))"

text \<open>
  The range of base cells of a c08 traversal, as \<open>C08BasedKokkosTraversal::c08Traversal\<close>
  sets it up: every cell below \<open>end = cellsPerDimension - overlap\<close>, with an overlap of one
  cell in each dimension.
\<close>

fun baseCells :: "cell3 \<Rightarrow> cell3 list" where
  "baseCells (dx, dy, dz) =
     concat (map (\<lambda>z. concat (map (\<lambda>y. map (\<lambda>x. (x, y, z)) [0..<dx - 1]) [0..<dy - 1])) [0..<dz - 1])"

text \<open>Vocabulary of the specification: the index of a cell given by its coordinates, cells of
  the grid, cells that are neighbours in the 3x3x3 sense, the component-wise minimum of two
  cells, the number of times a pair of cells (in either order) and a single cell are
  scheduled.\<close>

fun cellIndex :: "cell3 \<Rightarrow> cell3 \<Rightarrow> nat" where
  "cellIndex dims (x, y, z) = threeToOneD x y z dims"

fun inGrid :: "cell3 \<Rightarrow> cell3 \<Rightarrow> bool" where
  "inGrid (dx, dy, dz) (x, y, z) = (x < dx \<and> y < dy \<and> z < dz)"

fun isBaseCell :: "cell3 \<Rightarrow> cell3 \<Rightarrow> bool" where
  "isBaseCell (dx, dy, dz) (x, y, z) = (x + 1 < dx \<and> y + 1 < dy \<and> z + 1 < dz)"

fun adjacent :: "cell3 \<Rightarrow> cell3 \<Rightarrow> bool" where
  "adjacent (x, y, z) (x', y', z') =
     (x \<le> x' + 1 \<and> x' \<le> x + 1 \<and> y \<le> y' + 1 \<and> y' \<le> y + 1 \<and> z \<le> z' + 1 \<and> z' \<le> z + 1
      \<and> (x, y, z) \<noteq> (x', y', z'))"

fun minCorner :: "cell3 \<Rightarrow> cell3 \<Rightarrow> cell3" where
  "minCorner (x, y, z) (x', y', z') = (min x x', min y y', min z z')"

definition pairCount :: "nat \<Rightarrow> nat \<Rightarrow> task list \<Rightarrow> nat" where
  "pairCount i j tasks =
     length (filter (\<lambda>t. t = ProcessCellPair i j \<or> t = ProcessCellPair j i) tasks)"

definition selfCount :: "nat \<Rightarrow> task list \<Rightarrow> nat" where
  "selfCount i tasks = length (filter (\<lambda>t. t = ProcessCell i) tasks)"

text \<open>The fourteen calls of the base step at the base cell \<open>(x, y, z)\<close>, written with the
  coordinates of the cells of its forward 2x2x2 block.\<close>

fun baseTasks :: "cell3 \<Rightarrow> cell3 \<Rightarrow> task list" where
  "baseTasks dims (x, y, z) =
     [ProcessCell (cellIndex dims (x, y, z)),
      ProcessCellPair (cellIndex dims (x, y, z)) (cellIndex dims (x, y + 1, z)),
      ProcessCellPair (cellIndex dims (x, y + 1, z)) (cellIndex dims (x, y, z + 1)),
      ProcessCellPair (cellIndex dims (x, y, z)) (cellIndex dims (x, y, z + 1)),
      ProcessCellPair (cellIndex dims (x, y, z)) (cellIndex dims (x, y + 1, z + 1)),
      ProcessCellPair (cellIndex dims (x + 1, y, z)) (cellIndex dims (x, y + 1, z + 1)),
      ProcessCellPair (cellIndex dims (x + 1, y, z)) (cellIndex dims (x, y + 1, z)),
      ProcessCellPair (cellIndex dims (x + 1, y, z)) (cellIndex dims (x, y, z + 1)),
      ProcessCellPair (cellIndex dims (x, y, z)) (cellIndex dims (x + 1, y, z)),
      ProcessCellPair (cellIndex dims (x, y, z)) (cellIndex dims (x + 1, y + 1, z)),
      ProcessCellPair (cellIndex dims (x + 1, y + 1, z)) (cellIndex dims (x, y, z + 1)),
      ProcessCellPair (cellIndex dims (x, y + 1, z)) (cellIndex dims (x + 1, y, z + 1)),
      ProcessCellPair (cellIndex dims (x, y, z)) (cellIndex dims (x + 1, y, z + 1)),
      ProcessCellPair (cellIndex dims (x, y, z)) (cellIndex dims (x + 1, y + 1, z + 1))]"

section \<open>updateContainer of ReferenceLinkedCells\<close>


text \<open>
  Modelled from the spec: the cell block (\<open>CellBlock3D\<close> is not part of the sources at hand),
  as far as \<open>updateContainer\<close> uses it: the bounding box of a cell, the index of the cell that
  contains a position, and which cells are halo cells.
\<close>

record CellBlock3D =
  getCellBoundingBox :: "nat \<Rightarrow> vec3 \<times> vec3"
  getContainingCell :: "vec3 \<Rightarrow> nat"
  isHaloCell :: "nat \<Rightarrow> bool"

text \<open>
  The container. A reference cell is the list of its references, a reference being the
  index of the particle in the central particle vector; the vector comes with its dirty flag
  and the index where its dirty range begins.
\<close>

record ReferenceLinkedCells = ParticleContainer +
  cellBlock :: CellBlock3D
  cells :: "nat list list"
  particleList :: "Particle list"
  dirty :: bool
  dirtyIndex :: nat

text \<open>
  Modelled from the spec: \<open>ParticleVector::push_back\<close> (the class is not part of the sources at
  hand). The vector exposes a dirty flag, and the reference lists of the cells are rebuilt in
  bulk when it is set. When \<open>push_back\<close> sets the flag (a vector that reallocates invalidates
  the references into it) is left to the implementation: it is the parameter \<open>reallocates\<close>, a
  function of the current size. The dirty range is the whole vector when it is dirty, and
  otherwise the elements added since it was last marked clean.
\<close>

definition push_back :: "(nat \<Rightarrow> bool) \<Rightarrow> Particle \<Rightarrow> ReferenceLinkedCells \<Rightarrow> ReferenceLinkedCells" where
  "push_back reallocates p s =
     (let d = dirty s \<or> reallocates (length (particleList s))
      in s\<lparr>particleList := particleList s @ [p],
           dirty := d,
           dirtyIndex := (if d then 0 else dirtyIndex s)\<rparr>)"

definition addParticleReference :: "nat \<Rightarrow> nat \<Rightarrow> nat list list \<Rightarrow> nat list list" where
  "addParticleReference cell address cs = cs[cell := cs ! cell @ [address]]"

definition updateDirtyParticleReferences :: "ReferenceLinkedCells \<Rightarrow> ReferenceLinkedCells" where
  "updateDirtyParticleReferences s =
     (let cleared = (if dirty s then map (\<lambda>cell. []) (cells s) else cells s);
          filled = foldl (\<lambda>cs it. addParticleReference
                             (getContainingCell (cellBlock s) (getR (particleList s ! it))) it cs)
                     cleared [dirtyIndex s..<length (particleList s)]
      in s\<lparr>cells := filled, dirty := False, dirtyIndex := length (particleList s)\<rparr>)"

definition addParticleImpl :: "(nat \<Rightarrow> bool) \<Rightarrow> Particle \<Rightarrow> ReferenceLinkedCells \<Rightarrow> ReferenceLinkedCells" where
  "addParticleImpl reallocates p s = updateDirtyParticleReferences (push_back reallocates p s)"

text \<open>
  Modelled from the spec: \<open>CellBlock3D::clearHaloCells\<close> (not part of the sources at hand)
  clears the cells of the halo shell: their references are dropped, the particle vector is
  left as it is.
\<close>

definition clearHaloCells :: "CellBlock3D \<Rightarrow> nat list list \<Rightarrow> nat list list" where
  "clearHaloCells cb cs = map (\<lambda>cellId. if isHaloCell cb cellId then [] else cs ! cellId) [0..<length cs]"

definition deleteHaloParticles :: "ReferenceLinkedCells \<Rightarrow> ReferenceLinkedCells" where
  "deleteHaloParticles s = s\<lparr>cells := clearHaloCells (cellBlock s) (cells s)\<rparr>"







text \<open>
  A consistent state of the reference linked cells: there is a cell for every position; cells
  that are not halo cells lie within the box; every reference points into the particle vector
  and no particle is referenced twice; the particle vector is clean; and an entry of the
  particle vector that no cell outside the halo shell references is a dummy or lies outside
  the box.
\<close>

definition consistent :: "ReferenceLinkedCells \<Rightarrow> bool" where
  "consistent s =
     ((\<forall>pos. getContainingCell (cellBlock s) pos < length (cells s)) \<and>
      (\<forall>cellId pos. cellId < length (cells s) \<and> \<not> isHaloCell (cellBlock s) cellId \<and>
          inBox pos (fst (getCellBoundingBox (cellBlock s) cellId))
                    (snd (getCellBoundingBox (cellBlock s) cellId))
          \<longrightarrow> inBox pos (boxMin s) (boxMax s)) \<and>
      (\<forall>i\<in>set (concat (cells s)). i < length (particleList s)) \<and>
      distinct (concat (cells s)) \<and>
      \<not> dirty s \<and> dirtyIndex s = length (particleList s) \<and>
      (\<forall>i<length (particleList s).
          i \<notin> set (concat (cells (deleteHaloParticles s)))
          \<longrightarrow> isDummy (particleList s ! i)
               \<or> \<not> inBox (getR (particleList s ! i)) (boxMin s) (boxMax s)))"





text \<open>
  A small container on the box \<open>[0,2) \<times> [0,1) \<times> [0,1)\<close>: the two cells 1 and 2 between the
  halo cells 0 and 3. Particle 1 has moved from cell 1 to cell 2, particle 2 from cell 1 out of
  the box; particle 7 is a halo particle.
\<close>

definition exampleCellBlock :: CellBlock3D where
  "exampleCellBlock =
     \<lparr>getCellBoundingBox = (\<lambda>c. if c = 1 then ((0, 0, 0), (1, 1, 1))
                                 else if c = 2 then ((1, 0, 0), (2, 1, 1))
                                 else if c = 0 then ((-1, 0, 0), (0, 1, 1))
                                 else ((2, 0, 0), (3, 1, 1))),
      getContainingCell = (\<lambda>pos. if fst pos < 0 then 0 else if fst pos < 1 then 1
                                  else if fst pos < 2 then 2 else 3),
      isHaloCell = (\<lambda>c. c = 0 \<or> c = 3)\<rparr>"

definition exampleParticle :: "real \<Rightarrow> nat \<Rightarrow> OwnershipState \<Rightarrow> Particle" where
  "exampleParticle x i st = \<lparr>getR = (x, 1/2, 1/2), getV = (0, 0, 0), getID = i, ownershipState = st\<rparr>"

definition exampleLinkedCells :: ReferenceLinkedCells where
  "exampleLinkedCells =
     \<lparr>boxMin = (0, 0, 0), boxMax = (2, 1, 1), cellBlock = exampleCellBlock,
      cells = [[0], [1, 2], [3], []],
      particleList = [exampleParticle (-1/2) 7 halo, exampleParticle (3/2) 1 owned,
                      exampleParticle (5/2) 2 owned, exampleParticle (3/2) 3 owned],
      dirty = False, dirtyIndex = 4\<rparr>"

text \<open>
  The same container after \<open>addParticle\<close> of a particle 9 at \<open>x = 1/2\<close>, when \<open>push_back\<close> has
  made the vector dirty: \<open>updateDirtyParticleReferences\<close> has cleared all cells and referenced
  every particle again in the cell of its present position, so that particle 2, which is marked
  owned and has left the box, is now referenced by the halo cell 3.
\<close>

definition rebinnedLinkedCells :: ReferenceLinkedCells where
  "rebinnedLinkedCells = addParticleImpl (\<lambda>n. True) (exampleParticle (1/2) 9 owned) exampleLinkedCells"

section \<open>Theorems\<close>

lemma dot_sub_squaredDistance: "dot (sub a b) (sub a b) = squaredDistance a b"
  by (cases a, cases b) (simp add: power2_eq_square)

text \<open>
  Claim C10. \<open>FlopCounterFunctor::AoSFunctor\<close> leaves the functor (both counters) unchanged
  when one of the two particles is a dummy. Otherwise the distance counter grows by exactly
  one, and the kernel-call counter grows by exactly one if the squared distance of the two
  positions is at most the squared cutoff (the boundary included) and stays as it is
  otherwise. The counters are 64-bit, so "plus one" is the wrapping addition and always
  changes the value.
\<close>

theorem AoSFunctor_counters:
  "(isDummy i \<or> isDummy j \<longrightarrow> AoSFunctor i j n3 f = f) \<and>
   (\<not> isDummy i \<and> \<not> isDummy j \<longrightarrow>
      distanceCalculations (AoSFunctor i j n3 f) = distanceCalculations f + 1 \<and>
      distanceCalculations (AoSFunctor i j n3 f) \<noteq> distanceCalculations f \<and>
      cutoffSquare (AoSFunctor i j n3 f) = cutoffSquare f \<and>
      (squaredDistance (getR i) (getR j) \<le> cutoffSquare f \<longrightarrow>
         kernelCalls (AoSFunctor i j n3 f) = kernelCalls f + 1 \<and>
         kernelCalls (AoSFunctor i j n3 f) \<noteq> kernelCalls f) \<and>
      (\<not> squaredDistance (getR i) (getR j) \<le> cutoffSquare f \<longrightarrow>
         kernelCalls (AoSFunctor i j n3 f) = kernelCalls f))"
  by (simp add: AoSFunctor_def Let_def dot_sub_squaredDistance)

theorem AoSFunctor_counters_witness:
  "AoSFunctor \<lparr>getR = (0, 0, 0), getV = (0, 0, 0), getID = 1, ownershipState = dummyState\<rparr>
      \<lparr>getR = (1, 0, 0), getV = (0, 0, 0), getID = 2, ownershipState = owned\<rparr> True
      \<lparr>cutoffSquare = 1, distanceCalculations = 5, kernelCalls = 3\<rparr>
     = \<lparr>cutoffSquare = 1, distanceCalculations = 5, kernelCalls = 3\<rparr> \<and>
   distanceCalculations (AoSFunctor
      \<lparr>getR = (0, 0, 0), getV = (0, 0, 0), getID = 1, ownershipState = owned\<rparr>
      \<lparr>getR = (1, 0, 0), getV = (0, 0, 0), getID = 2, ownershipState = halo\<rparr> True
      \<lparr>cutoffSquare = 1, distanceCalculations = 5, kernelCalls = 3\<rparr>) = 6 \<and>
   kernelCalls (AoSFunctor
      \<lparr>getR = (0, 0, 0), getV = (0, 0, 0), getID = 1, ownershipState = owned\<rparr>
      \<lparr>getR = (1, 0, 0), getV = (0, 0, 0), getID = 2, ownershipState = halo\<rparr> True
      \<lparr>cutoffSquare = 1, distanceCalculations = 5, kernelCalls = 3\<rparr>) = 4 \<and>
   kernelCalls (AoSFunctor
      \<lparr>getR = (0, 0, 0), getV = (0, 0, 0), getID = 1, ownershipState = owned\<rparr>
      \<lparr>getR = (1, 1, 0), getV = (0, 0, 0), getID = 2, ownershipState = owned\<rparr> False
      \<lparr>cutoffSquare = 1, distanceCalculations = 5, kernelCalls = 3\<rparr>) = 3"
  using
    AoSFunctor_counters [of
      "\<lparr>getR = (0, 0, 0), getV = (0, 0, 0), getID = 1, ownershipState = dummyState\<rparr>"
      "\<lparr>getR = (1, 0, 0), getV = (0, 0, 0), getID = 2, ownershipState = owned\<rparr>" True
      "\<lparr>cutoffSquare = 1, distanceCalculations = 5, kernelCalls = 3\<rparr>"]
    AoSFunctor_counters [of
      "\<lparr>getR = (0, 0, 0), getV = (0, 0, 0), getID = 1, ownershipState = owned\<rparr>"
      "\<lparr>getR = (1, 0, 0), getV = (0, 0, 0), getID = 2, ownershipState = halo\<rparr>" True
      "\<lparr>cutoffSquare = 1, distanceCalculations = 5, kernelCalls = 3\<rparr>"]
    AoSFunctor_counters [of
      "\<lparr>getR = (0, 0, 0), getV = (0, 0, 0), getID = 1, ownershipState = owned\<rparr>"
      "\<lparr>getR = (1, 1, 0), getV = (0, 0, 0), getID = 2, ownershipState = owned\<rparr>" False
      "\<lparr>cutoffSquare = 1, distanceCalculations = 5, kernelCalls = 3\<rparr>"]
  by (simp add: isDummy_def)

text \<open>
  Claim C8, as amended. \<open>DirectSum::addParticle\<close> raises exactly when the position is outside
  \<open>[boxMin, boxMax)\<close> and otherwise appends the particle to the owned cell;
  \<open>DirectSum::addHaloParticle\<close> raises exactly when the position is inside the box and otherwise
  appends the particle to the halo cell. When either raises, the container is unchanged and the
  diagnostic is a fixed message that names the violated invariant; it depends neither on the
  particle id nor on the position.
\<close>

theorem DirectSum_add_checks:
  "(snd (addParticle p c) \<noteq> None \<longleftrightarrow> \<not> inBox (getR p) (boxMin c) (boxMax c)) \<and>
   (inBox (getR p) (boxMin c) (boxMax c) \<longrightarrow>
      addParticle p c = (c\<lparr>ownedCell := ownedCell c @ [p]\<rparr>, None)) \<and>
   (\<not> inBox (getR p) (boxMin c) (boxMax c) \<longrightarrow>
      addParticle p c =
        (c, Some ''DirectSum: trying to add particle that is not in the bounding box'')) \<and>
   (snd (addHaloParticle p c) \<noteq> None \<longleftrightarrow> inBox (getR p) (boxMin c) (boxMax c)) \<and>
   (\<not> inBox (getR p) (boxMin c) (boxMax c) \<longrightarrow>
      addHaloParticle p c = (c\<lparr>haloCell := haloCell c @ [p]\<rparr>, None)) \<and>
   (inBox (getR p) (boxMin c) (boxMax c) \<longrightarrow>
      addHaloParticle p c =
        (c, Some ''DirectSum: trying to add particle that is not OUTSIDE of the bounding box''))"
  by (simp add: addParticle_def addHaloParticle_def)

theorem DirectSum_add_checks_witness:
  "addParticle \<lparr>getR = (1/2, 0, 0), getV = (0, 0, 0), getID = 7, ownershipState = owned\<rparr>
      \<lparr>boxMin = (0, 0, 0), boxMax = (1, 1, 1), ownedCell = [], haloCell = []\<rparr>
     = (\<lparr>boxMin = (0, 0, 0), boxMax = (1, 1, 1),
         ownedCell = [\<lparr>getR = (1/2, 0, 0), getV = (0, 0, 0), getID = 7, ownershipState = owned\<rparr>],
         haloCell = []\<rparr>, None) \<and>
   addHaloParticle \<lparr>getR = (1/2, 0, 0), getV = (0, 0, 0), getID = 7, ownershipState = owned\<rparr>
      \<lparr>boxMin = (0, 0, 0), boxMax = (1, 1, 1), ownedCell = [], haloCell = []\<rparr>
     = (\<lparr>boxMin = (0, 0, 0), boxMax = (1, 1, 1), ownedCell = [], haloCell = []\<rparr>,
        Some ''DirectSum: trying to add particle that is not OUTSIDE of the bounding box'') \<and>
   addParticle \<lparr>getR = (1, 0, 0), getV = (0, 0, 0), getID = 8, ownershipState = owned\<rparr>
      \<lparr>boxMin = (0, 0, 0), boxMax = (1, 1, 1), ownedCell = [], haloCell = []\<rparr>
     = (\<lparr>boxMin = (0, 0, 0), boxMax = (1, 1, 1), ownedCell = [], haloCell = []\<rparr>,
        Some ''DirectSum: trying to add particle that is not in the bounding box'') \<and>
   addHaloParticle \<lparr>getR = (1, 0, 0), getV = (0, 0, 0), getID = 8, ownershipState = owned\<rparr>
      \<lparr>boxMin = (0, 0, 0), boxMax = (1, 1, 1), ownedCell = [], haloCell = []\<rparr>
     = (\<lparr>boxMin = (0, 0, 0), boxMax = (1, 1, 1), ownedCell = [],
         haloCell = [\<lparr>getR = (1, 0, 0), getV = (0, 0, 0), getID = 8, ownershipState = owned\<rparr>]\<rparr>,
        None)"
  using
    DirectSum_add_checks [of
      "\<lparr>getR = (1/2, 0, 0), getV = (0, 0, 0), getID = 7, ownershipState = owned\<rparr>"
      "\<lparr>boxMin = (0, 0, 0), boxMax = (1, 1, 1), ownedCell = [], haloCell = []\<rparr>"]
    DirectSum_add_checks [of
      "\<lparr>getR = (1, 0, 0), getV = (0, 0, 0), getID = 8, ownershipState = owned\<rparr>"
      "\<lparr>boxMin = (0, 0, 0), boxMax = (1, 1, 1), ownedCell = [], haloCell = []\<rparr>"]
  by simp

text \<open>
  Counterexample to claim C8 as stated: two particles with different ids and different
  positions, both outside the box, are rejected with one and the same diagnostic, so the
  diagnostic names neither the particle id nor the position.
\<close>

theorem DirectSum_diagnostic_counterexample:
  "snd (addParticle \<lparr>getR = (2, 0, 0), getV = (0, 0, 0), getID = 1, ownershipState = owned\<rparr>
          \<lparr>boxMin = (0, 0, 0), boxMax = (1, 1, 1), ownedCell = [], haloCell = []\<rparr>)
     = Some ''DirectSum: trying to add particle that is not in the bounding box'' \<and>
   snd (addParticle \<lparr>getR = (3, 5, 0), getV = (0, 0, 0), getID = 2, ownershipState = owned\<rparr>
          \<lparr>boxMin = (0, 0, 0), boxMax = (1, 1, 1), ownedCell = [], haloCell = []\<rparr>)
     = Some ''DirectSum: trying to add particle that is not in the bounding box''"
  by (simp add: addParticle_def)

text \<open>
  Claim C9. For type ids \<open>i\<close> and \<open>j\<close> present in the library,
  \<open>ParticleClassLibrary::mixingE\<close> returns the square root of the sum of the two epsilons and
  \<open>mixing24E\<close> returns 24 times that value, whereas the rule the test implements is the
  square root of the product.
\<close>

theorem mixingE_sum_rule:
  "Epsilon lib i = Some ei \<Longrightarrow> Epsilon lib j = Some ej \<Longrightarrow>
     mixingE lib i j = Inr (sqrt (ei + ej)) \<and>
     mixing24E lib i j = Inr (24 * sqrt (ei + ej)) \<and>
     test_mixingE ei ej = sqrt (ei * ej)"
  by (simp add: mixingE_def mixing24E_def at_map_def test_mixingE_def)

theorem mixingE_sum_rule_witness:
  "mixingE \<lparr>Epsilon = [0 \<mapsto> 1, 1 \<mapsto> 3], Sigma = Map.empty, Mass = Map.empty\<rparr> 0 1 = Inr 2 \<and>
   mixing24E \<lparr>Epsilon = [0 \<mapsto> 1, 1 \<mapsto> 3], Sigma = Map.empty, Mass = Map.empty\<rparr> 0 1 = Inr 48 \<and>
   test_mixingE 1 3 = sqrt 3"
  using mixingE_sum_rule [of "\<lparr>Epsilon = [0 \<mapsto> 1, 1 \<mapsto> 3], Sigma = Map.empty, Mass = Map.empty\<rparr>"
      0 1 1 3]
  by simp

subsection \<open>FullSearchMPI\<close>

lemma length_potentialConfigs_aux:
  "int (length (concat (map (\<lambda>k. concat (map (\<lambda>f. concat (map (\<lambda>t. concat (map (\<lambda>d.
        map (\<lambda>n. (k, f, t, d, n)) ns) ds)) (allowedAndApplicable compatible ts k))) fs)) cs))) + acc
   = foldl (\<lambda>total k. total + int (length fs * length (allowedAndApplicable compatible ts k)
                                   * length ds * length ns)) acc cs"
proof (induction cs arbitrary: acc)
  case Nil
  then show ?case by simp
next
  case (Cons k cs)
  have inner: "length (concat (map (\<lambda>f. concat (map (\<lambda>t. concat (map (\<lambda>d.
        map (\<lambda>n. (k, f, t, d, n)) ns) ds)) (allowedAndApplicable compatible ts k))) fs))
     = length fs * length (allowedAndApplicable compatible ts k) * length ds * length ns"
    by (simp add: length_concat comp_def sum_list_triv)
  show ?case
    using Cons.IH [of "acc + int (length fs * length (allowedAndApplicable compatible ts k)
                                   * length ds * length ns)"] inner
    by simp
qed

lemma totalNumConfigs_length:
  "totalNumConfigs compatible cs fs ts ds ns = int (length (potentialConfigs compatible cs fs ts ds ns))"
  using length_potentialConfigs_aux [of ns ds compatible ts fs cs 0]
  by (simp add: totalNumConfigs_def potentialConfigs_def)

lemma populateLoop_take:
  "start \<le> i \<Longrightarrow> i \<le> startNext \<Longrightarrow>
     populateLoop i start startNext cs acc = acc @ take (nat (startNext - i)) cs"
proof (induction cs arbitrary: i acc)
  case Nil
  then show ?case by simp
next
  case (Cons c cs)
  show ?case
  proof (cases "i = startNext")
    case True
    with Cons.prems show ?thesis by simp
  next
    case False
    with Cons.prems have lt: "i < startNext" by simp
    then have "nat (startNext - i) = Suc (nat (startNext - (i + 1)))" by simp
    with Cons.prems False lt Cons.IH [of "i + 1" "acc @ [c]"] show ?thesis by simp
  qed
qed

lemma populateLoop_drop:
  "i \<le> start \<Longrightarrow> start \<le> startNext \<Longrightarrow>
     populateLoop i start startNext cs acc
       = acc @ take (nat (startNext - start)) (drop (nat (start - i)) cs)"
proof (induction cs arbitrary: i)
  case Nil
  then show ?case by simp
next
  case (Cons c cs)
  show ?case
  proof (cases "i < start")
    case True
    then have "nat (start - i) = Suc (nat (start - (i + 1)))" by simp
    with True Cons.prems Cons.IH [of "i + 1"] show ?thesis by simp
  next
    case False
    with Cons.prems have "i = start" by simp
    with Cons.prems populateLoop_take [of start start startNext "c # cs" acc] show ?thesis
      by simp
  qed
qed

lemma rankStart_Suc: "rankStart n w (Suc r) = rankStart n w r + rankSize n w r"
  by (auto simp: rankStart_def rankSize_def min_def)

lemma rankStart_0: "rankStart n w 0 = 0"
  by (simp add: rankStart_def)

lemma rankStart_w: "0 < w \<Longrightarrow> rankStart n w w = n"
proof -
  assume "0 < w"
  then have "n mod w < w" by simp
  then have "min w (n mod w) = n mod w" by simp
  then show ?thesis by (simp add: rankStart_def)
qed

lemma rankStart_mono: "r \<le> r' \<Longrightarrow> rankStart n w r \<le> rankStart n w r'"
  unfolding rankStart_def by (intro add_mono mult_le_mono1) (auto simp: min_def)

lemma rankBlock_end: "r < w \<Longrightarrow> rankStart n w r + rankSize n w r \<le> n"
proof -
  assume "r < w"
  then have "rankStart n w (Suc r) \<le> rankStart n w w"
    by (intro rankStart_mono) simp
  with \<open>r < w\<close> show ?thesis
    by (simp add: rankStart_Suc rankStart_w)
qed

lemma rankBlock_union_upto: "(\<Union>r<k. rankBlock n w r) = {..<rankStart n w k}"
proof (induction k)
  case 0
  then show ?case by (simp add: rankStart_0)
next
  case (Suc k)
  have "(\<Union>r<Suc k. rankBlock n w r) = (\<Union>r<k. rankBlock n w r) \<union> rankBlock n w k"
    by (auto simp: less_Suc_eq)
  also have "\<dots> = {..<rankStart n w k} \<union> {rankStart n w k ..< rankStart n w (Suc k)}"
    unfolding Suc.IH by (simp add: rankBlock_def rankStart_Suc)
  also have "\<dots> = {..<rankStart n w (Suc k)}"
    using rankStart_mono [of k "Suc k" n w] by auto
  finally show ?case .
qed

lemma rankBlock_disjoint_less:
  assumes "r1 < r2"
  shows "rankBlock n w r1 \<inter> rankBlock n w r2 = {}"
proof -
  have "rankStart n w (Suc r1) \<le> rankStart n w r2"
    using assms by (intro rankStart_mono) simp
  then show ?thesis
    by (auto simp: rankBlock_def rankStart_Suc)
qed

lemma rankBlock_disjoint: "r1 \<noteq> r2 \<Longrightarrow> rankBlock n w r1 \<inter> rankBlock n w r2 = {}"
  using rankBlock_disjoint_less [of r1 r2 n w] rankBlock_disjoint_less [of r2 r1 n w]
  by (cases "r1 < r2") auto

lemma FullSearchMPI_bounds:
  assumes "0 < w"
  shows "(int n div int w) * int r + (if int r < int n mod int w then int r else int n mod int w)
           = int (rankStart n w r)"
    and "(int n div int w) * (int r + 1)
           + (if int r < int n mod int w then int r + 1 else int n mod int w)
           = int (rankStart n w r + rankSize n w r)"
proof -
  have d: "int n div int w = int (n div w)" and m: "int n mod int w = int (n mod w)"
    by (simp_all add: zdiv_int zmod_int)
  show "(int n div int w) * int r + (if int r < int n mod int w then int r else int n mod int w)
           = int (rankStart n w r)"
    unfolding d m by (simp add: rankStart_def min_def)
  show "(int n div int w) * (int r + 1)
           + (if int r < int n mod int w then int r + 1 else int n mod int w)
           = int (rankStart n w r + rankSize n w r)"
    unfolding d m by (simp add: rankStart_def rankSize_def min_def algebra_simps)
qed

lemma FullSearchMPI_eval:
  assumes w: "0 < w" and r: "r < w"
    and n: "n = length (potentialConfigs compatible cs fs ts ds ns)"
  shows "FullSearchMPI compatible cs fs ts ds ns (int w) (int r) =
     (if take (rankSize n w r) (drop (rankStart n w r) (potentialConfigs compatible cs fs ts ds ns)) = []
      then (if potentialConfigs compatible cs fs ts ds ns = []
            then Inl (Exception ''No valid configuration could be generated'')
            else Inr (potentialConfigs compatible cs fs ts ds ns))
      else Inr (take (rankSize n w r)
                  (drop (rankStart n w r) (potentialConfigs compatible cs fs ts ds ns))))"
proof -
  let ?cfg = "potentialConfigs compatible cs fs ts ds ns"
  have tot: "totalNumConfigs compatible cs fs ts ds ns = int n"
    by (simp add: totalNumConfigs_length n)
  have own: "populateSearchSpace compatible cs fs ts ds ns (int (rankStart n w r))
               (int (rankStart n w r + rankSize n w r)) []
             = take (rankSize n w r) (drop (rankStart n w r) ?cfg)"
    unfolding populateSearchSpace_def
    using populateLoop_drop [of 0 "int (rankStart n w r)" "int (rankStart n w r + rankSize n w r)" ?cfg "[]"]
    by simp
  have all: "populateSearchSpace compatible cs fs ts ds ns 0 (int n) [] = ?cfg"
    unfolding populateSearchSpace_def
    using populateLoop_drop [of 0 0 "int n" ?cfg "[]"] n
    by simp
  show ?thesis
    unfolding FullSearchMPI_def Let_def tot FullSearchMPI_bounds [OF w] own all
    by simp
qed

text \<open>
  Claim C7, as amended. With \<open>w\<close> ranks and \<open>n\<close> enumerated configurations, the constructor
  gives rank \<open>r\<close> the contiguous block of the enumeration that starts at index
  \<open>r * (n div w) + min r (n mod w)\<close> and has \<open>n div w + 1\<close> elements if \<open>r < n mod w\<close> and
  \<open>n div w\<close> elements otherwise, provided that block is not empty. A rank whose block is empty
  (only possible when \<open>n < w\<close>) receives the whole enumeration instead, and the constructor
  raises when there is no configuration at all. The blocks of all ranks are pairwise disjoint
  and cover all \<open>n\<close> indices; for \<open>w \<le> n\<close> no block is empty.
\<close>

theorem FullSearchMPI_partition:
  assumes "0 < w" and "r < w"
    and "n = length (potentialConfigs compatible cs fs ts ds ns)"
  shows "(0 < rankSize n w r \<longrightarrow>
            FullSearchMPI compatible cs fs ts ds ns (int w) (int r)
              = Inr (take (rankSize n w r)
                      (drop (rankStart n w r) (potentialConfigs compatible cs fs ts ds ns))) \<and>
            length (take (rankSize n w r)
                      (drop (rankStart n w r) (potentialConfigs compatible cs fs ts ds ns)))
              = rankSize n w r) \<and>
         (rankSize n w r = 0 \<and> 0 < n \<longrightarrow>
            FullSearchMPI compatible cs fs ts ds ns (int w) (int r)
              = Inr (potentialConfigs compatible cs fs ts ds ns)) \<and>
         (n = 0 \<longrightarrow>
            FullSearchMPI compatible cs fs ts ds ns (int w) (int r)
              = Inl (Exception ''No valid configuration could be generated'')) \<and>
         (w \<le> n \<longrightarrow> 0 < rankSize n w r) \<and>
         (\<forall>r1<w. \<forall>r2<w. r1 \<noteq> r2 \<longrightarrow> rankBlock n w r1 \<inter> rankBlock n w r2 = {}) \<and>
         (\<Union>r'<w. rankBlock n w r') = {..<n}"
proof -
  let ?cfg = "potentialConfigs compatible cs fs ts ds ns"
  let ?own = "take (rankSize n w r) (drop (rankStart n w r) ?cfg)"
  have len: "length ?own = rankSize n w r"
    using rankBlock_end [OF assms(2), of n] assms(3) by simp
  have eval: "FullSearchMPI compatible cs fs ts ds ns (int w) (int r) =
     (if ?own = [] then (if ?cfg = [] then Inl (Exception ''No valid configuration could be generated'')
                         else Inr ?cfg)
      else Inr ?own)"
    by (rule FullSearchMPI_eval [OF assms])
  have a: "0 < rankSize n w r \<longrightarrow>
            FullSearchMPI compatible cs fs ts ds ns (int w) (int r) = Inr ?own \<and>
            length ?own = rankSize n w r"
    using len eval by auto
  have b: "rankSize n w r = 0 \<and> 0 < n \<longrightarrow>
            FullSearchMPI compatible cs fs ts ds ns (int w) (int r) = Inr ?cfg"
    using eval assms(3) by auto
  have c: "n = 0 \<longrightarrow> FullSearchMPI compatible cs fs ts ds ns (int w) (int r)
              = Inl (Exception ''No valid configuration could be generated'')"
    using eval assms(3) by auto
  have d: "w \<le> n \<longrightarrow> 0 < rankSize n w r"
    using assms(1) by (auto simp: rankSize_def div_greater_zero_iff)
  have e: "\<forall>r1<w. \<forall>r2<w. r1 \<noteq> r2 \<longrightarrow> rankBlock n w r1 \<inter> rankBlock n w r2 = {}"
    by (simp add: rankBlock_disjoint)
  have f: "(\<Union>r'<w. rankBlock n w r') = {..<n}"
    by (simp add: rankBlock_union_upto rankStart_w [OF assms(1)])
  from a b c d e f show ?thesis by blast
qed

theorem FullSearchMPI_partition_witness:
  "FullSearchMPI (\<lambda>k. [0::nat, 1]) [0::nat] [1::nat] [0::nat] [0::nat, 1] [0::nat, 1] 2 0
     = Inr [(0, 1, 0, 0, 0), (0, 1, 0, 0, 1)] \<and>
   FullSearchMPI (\<lambda>k. [0::nat, 1]) [0::nat] [1::nat] [0::nat] [0::nat, 1] [0::nat, 1] 2 1
     = Inr [(0, 1, 0, 1, 0), (0, 1, 0, 1, 1)] \<and>
   rankBlock 4 2 0 \<inter> rankBlock 4 2 1 = {} \<and>
   rankBlock 4 2 0 \<union> rankBlock 4 2 1 = {..<4}"
proof -
  have n: "4 = length (potentialConfigs (\<lambda>k. [0::nat, 1]) [0::nat] [1::nat] [0::nat] [0::nat, 1] [0::nat, 1])"
    by (simp add: potentialConfigs_def allowedAndApplicable_def)
  have w: "0 < (2::nat)" and r0: "(0::nat) < 2" and r1: "(1::nat) < 2"
    by simp_all
  have u: "(\<Union>r'<(2::nat). rankBlock 4 2 r') = rankBlock 4 2 0 \<union> rankBlock 4 2 1"
    by (auto simp: less_Suc_eq numeral_2_eq_2)
  show ?thesis
    using FullSearchMPI_partition [OF w r0 n] FullSearchMPI_partition [OF w r1 n] u
    by (simp add: rankSize_def rankStart_def potentialConfigs_def allowedAndApplicable_def)
qed

text \<open>
  Counterexample to claim C7 as stated: with three ranks and two configurations, the block of
  rank 2 is empty, so the constructor falls back to the whole enumeration. Rank 2 then holds
  two configurations instead of \<open>2 div 3 = 0\<close>, and it shares the first one with rank 0.
\<close>

theorem FullSearchMPI_partition_counterexample:
  "FullSearchMPI (\<lambda>k. [0::nat]) [0::nat] [1::nat] [0::nat] [0::nat] [0::nat, 1] 3 2
     = Inr [(0, 1, 0, 0, 0), (0, 1, 0, 0, 1)] \<and>
   FullSearchMPI (\<lambda>k. [0::nat]) [0::nat] [1::nat] [0::nat] [0::nat] [0::nat, 1] 3 0
     = Inr [(0, 1, 0, 0, 0)]"
  by (simp add: FullSearchMPI_def populateSearchSpace_def potentialConfigs_def
      allowedAndApplicable_def totalNumConfigs_def)

subsection \<open>ClusterTower\<close>

lemma towerOf_eq:
  "foldl (\<lambda>t p. towerAddParticle p t) (clear old) ps
     = \<lparr>clusters = [], particles = ps, numDummyParticles = 0\<rparr>"
proof -
  have "foldl (\<lambda>t p. towerAddParticle p t) \<lparr>clusters = [], particles = qs, numDummyParticles = 0\<rparr> ps
        = \<lparr>clusters = [], particles = qs @ ps, numDummyParticles = 0\<rparr>" for qs
    by (induction ps arbitrary: qs) (simp_all add: towerAddParticle_def)
  from this [of "[]"] show ?thesis
    by (cases old) (simp add: clear_def)
qed

lemma length_sortByDim: "length (sortByDim d ps) = length ps"
  by (simp add: sortByDim_def)

lemma pad_arith:
  fixes N :: nat
  shows "(N + (if N mod 4 \<noteq> 0 then 4 - N mod 4 else 0)) div 4 = (N + 3) div 4"
    and "(if N mod 4 \<noteq> 0 then 4 - N mod 4 else 0) = (4 - N mod 4) mod 4"
    and "N + (if N mod 4 \<noteq> 0 then 4 - N mod 4 else 0) = 4 * ((N + 3) div 4)"
proof -
  obtain q r where N: "N = 4 * q + r" and r: "r < 4"
    using mod_less_divisor [of 4 N] div_mult_mod_eq [of N 4]
    by (metis mult.commute zero_less_numeral)
  from r have "r = 0 \<or> r = 1 \<or> r = 2 \<or> r = 3" by arith
  then show "(N + (if N mod 4 \<noteq> 0 then 4 - N mod 4 else 0)) div 4 = (N + 3) div 4"
    and "(if N mod 4 \<noteq> 0 then 4 - N mod 4 else 0) = (4 - N mod 4) mod 4"
    and "N + (if N mod 4 \<noteq> 0 then 4 - N mod 4 else 0) = 4 * ((N + 3) div 4)"
    unfolding N by auto
qed


lemma generateClusters_fresh:
  assumes "ps \<noteq> []"
  shows "generateClusters \<lparr>clusters = [], particles = ps, numDummyParticles = 0\<rparr>
     = (\<lparr>clusters = map (\<lambda>index. 4 * index) [0..<(length ps + 3) div 4],
         particles = sortByDim 2 ps
            @ replicate ((4 - length ps mod 4) mod 4) (last (sortByDim 2 ps)),
         numDummyParticles = (4 - length ps mod 4) mod 4\<rparr>,
        (length ps + 3) div 4)"
proof -
  have ne: "sortByDim 2 ps \<noteq> []"
    using assms length_sortByDim [of 2 ps] by (metis length_0_conv)
  have lst: "sortByDim 2 ps ! (length ps - 1) = last (sortByDim 2 ps)"
    using ne by (simp add: last_conv_nth length_sortByDim)
  have nd: "(if length ps mod 4 \<noteq> 0 then 4 - length ps mod 4 else 0) = (4 - length ps mod 4) mod 4"
    by (rule pad_arith(2))
  have nc: "(length ps + (4 - length ps mod 4) mod 4) div 4 = (length ps + 3) div 4"
    using pad_arith(1) [of "length ps"] unfolding nd .
  have pos: "0 < length ps" using assms by simp
  show ?thesis
    unfolding generateClusters_def getNumActualParticles_def getNumClusters_def Let_def
      clusterSize_def length_sortByDim
    by (simp only: nd nc lst pos ClusterTower.simps length_append length_replicate
        diff_zero if_True append_Nil length_map length_upt length_sortByDim)
qed

text \<open>
  Claim C3. A tower that was cleared and then received \<open>N \<ge> 1\<close> particles holds \<open>N\<close> actual
  particles. After \<open>generateClusters\<close> it has \<open>ceil(N/4)\<close> clusters (also the returned value),
  cluster \<open>i\<close> starts at slot \<open>4 * i\<close> and the particle vector has four slots per cluster;
  the number of padding entries is \<open>(4 - N mod 4) mod 4\<close>, they follow the \<open>N\<close> sorted
  particles and are copies of the last of them; \<open>getNumActualParticles\<close> still returns \<open>N\<close>.
\<close>

theorem generateClusters_shape:
  assumes "ps \<noteq> []"
    and "t = foldl (\<lambda>t p. towerAddParticle p t) (clear old) ps"
    and "N = length ps"
  shows "getNumActualParticles t = N \<and>
         snd (generateClusters t) = (N + 3) div 4 \<and>
         getNumClusters (fst (generateClusters t)) = (N + 3) div 4 \<and>
         clusters (fst (generateClusters t)) = map (\<lambda>i. clusterSize * i) [0..<(N + 3) div 4] \<and>
         length (particles (fst (generateClusters t)))
           = clusterSize * getNumClusters (fst (generateClusters t)) \<and>
         getNumDummyParticles (fst (generateClusters t)) = (4 - N mod 4) mod 4 \<and>
         getNumActualParticles (fst (generateClusters t)) = N \<and>
         take N (particles (fst (generateClusters t))) = sortByDim 2 ps \<and>
         drop N (particles (fst (generateClusters t)))
           = replicate ((4 - N mod 4) mod 4) (last (sortByDim 2 ps))"
proof -
  have t: "t = \<lparr>clusters = [], particles = ps, numDummyParticles = 0\<rparr>"
    by (simp add: assms(2) towerOf_eq)
  have len: "length ps + (4 - length ps mod 4) mod 4 = 4 * ((length ps + 3) div 4)"
    using pad_arith(2,3) [of "length ps"] by simp
  have len': "4 * ((length ps + 3) div 4) - (4 - length ps mod 4) mod 4 = length ps"
    using len by linarith
  show ?thesis
    unfolding t generateClusters_fresh [OF assms(1)] assms(3)
    by (simp add: getNumActualParticles_def getNumClusters_def getNumDummyParticles_def
        clusterSize_def length_sortByDim len len')
qed

theorem generateClusters_shape_witness:
  "snd (generateClusters (foldl (\<lambda>t p. towerAddParticle p t) (clear emptyTower)
      [\<lparr>getR = (0, 0, 3), getV = (0, 0, 0), getID = 1\<rparr>,
       \<lparr>getR = (0, 0, 1), getV = (0, 0, 0), getID = 2\<rparr>,
       \<lparr>getR = (0, 0, 2), getV = (0, 0, 0), getID = 3\<rparr>,
       \<lparr>getR = (0, 0, 5), getV = (0, 0, 0), getID = 4\<rparr>,
       \<lparr>getR = (0, 0, 4), getV = (0, 0, 0), getID = 5\<rparr>])) = 2 \<and>
   getNumDummyParticles (fst (generateClusters (foldl (\<lambda>t p. towerAddParticle p t) (clear emptyTower)
      [\<lparr>getR = (0, 0, 3), getV = (0, 0, 0), getID = 1\<rparr>,
       \<lparr>getR = (0, 0, 1), getV = (0, 0, 0), getID = 2\<rparr>,
       \<lparr>getR = (0, 0, 2), getV = (0, 0, 0), getID = 3\<rparr>,
       \<lparr>getR = (0, 0, 5), getV = (0, 0, 0), getID = 4\<rparr>,
       \<lparr>getR = (0, 0, 4), getV = (0, 0, 0), getID = 5\<rparr>]))) = 3 \<and>
   getNumActualParticles (fst (generateClusters (foldl (\<lambda>t p. towerAddParticle p t) (clear emptyTower)
      [\<lparr>getR = (0, 0, 3), getV = (0, 0, 0), getID = 1\<rparr>,
       \<lparr>getR = (0, 0, 1), getV = (0, 0, 0), getID = 2\<rparr>,
       \<lparr>getR = (0, 0, 2), getV = (0, 0, 0), getID = 3\<rparr>,
       \<lparr>getR = (0, 0, 5), getV = (0, 0, 0), getID = 4\<rparr>,
       \<lparr>getR = (0, 0, 4), getV = (0, 0, 0), getID = 5\<rparr>]))) = 5"
proof -
  let ?ps = "[\<lparr>getR = (0, 0, 3), getV = (0, 0, 0), getID = 1\<rparr>,
       \<lparr>getR = (0, 0, 1), getV = (0, 0, 0), getID = 2\<rparr>,
       \<lparr>getR = (0, 0, 2), getV = (0, 0, 0), getID = 3\<rparr>,
       \<lparr>getR = (0, 0, 5), getV = (0, 0, 0), getID = 4\<rparr>,
       \<lparr>getR = (0, 0, 4), getV = (0, 0, 0), getID = 5::nat\<rparr>]"
  have ne: "?ps \<noteq> []" by simp
  have n: "(5::nat) = length ?ps" by simp
  show ?thesis
    using generateClusters_shape [OF ne refl n, where old = emptyTower] by simp
qed

lemma fillSlots_length: "length (foldl (fillSlot b x dz) ps ks) = length ps"
  by (induction ks arbitrary: ps) (simp_all add: fillSlot_def)

lemma fillSlots_nth:
  assumes "nd \<le> clusterSize" and "b + clusterSize \<le> length ps" and "j < length ps"
  shows "foldl (fillSlot b x dz) ps [1..<Suc nd] ! j =
     (if b + clusterSize - nd \<le> j \<and> j < b + clusterSize
      then setR (x, 0, dz * real (b + clusterSize - j)) dummy else ps ! j)"
  using assms(1)
proof (induction nd)
  case 0
  then show ?case by auto
next
  case (Suc nd)
  let ?prev = "foldl (fillSlot b x dz) ps [1..<Suc nd]"
  have step: "foldl (fillSlot b x dz) ps [1..<Suc (Suc nd)]
      = ?prev[b + (clusterSize - Suc nd) := setR (x, 0, dz * real (Suc nd)) dummy]"
    by (simp add: fillSlot_def)
  have inr: "b + (clusterSize - Suc nd) < length ?prev"
    using Suc.prems assms(2) by (simp add: fillSlots_length)
  have ih: "?prev ! j = (if b + clusterSize - nd \<le> j \<and> j < b + clusterSize
      then setR (x, 0, dz * real (b + clusterSize - j)) dummy else ps ! j)"
    using Suc by simp
  show ?case
  proof (cases "j = b + (clusterSize - Suc nd)")
    case True
    then have "b + clusterSize - j = Suc nd"
      using Suc.prems by simp
    with True inr Suc.prems show ?thesis
      unfolding step by simp
  next
    case False
    then have "foldl (fillSlot b x dz) ps [1..<Suc (Suc nd)] ! j = ?prev ! j"
      unfolding step by simp
    with False ih Suc.prems show ?thesis
      by auto
  qed
qed

lemma fillUp_full_last_cluster:
  assumes "clusters g \<noteq> []"
    and "clusters g ! (length (clusters g) - 1) + clusterSize = length (particles g)"
    and "numDummyParticles g \<le> clusterSize"
  shows "\<exists>t'. fillUpWithDummyParticles x dz g = Inr t' \<and>
           clusters t' = clusters g \<and>
           numDummyParticles t' = numDummyParticles g \<and>
           length (particles t') = length (particles g) \<and>
           (\<forall>j < length (particles g).
              particles t' ! j =
                (if length (particles g) - numDummyParticles g \<le> j
                 then setR (x, 0, dz * real (length (particles g) - j)) dummy
                 else particles g ! j))"
proof (cases "numDummyParticles g = 0")
  case True
  then show ?thesis
    by (auto simp: fillUpWithDummyParticles_def)
next
  case False
  let ?b = "clusters g ! (length (clusters g) - 1)"
  let ?ps = "foldl (fillSlot ?b x dz) (particles g) [1..<Suc (numDummyParticles g)]"
  have eq: "fillUpWithDummyParticles x dz g = Inr (g\<lparr>particles := ?ps\<rparr>)"
    using False assms
    by (simp add: fillUpWithDummyParticles_def getNumClusters_def Let_def)
  have b: "?b + clusterSize \<le> length (particles g)"
    using assms(2) by simp
  have nth: "?ps ! j = (if length (particles g) - numDummyParticles g \<le> j
                 then setR (x, 0, dz * real (length (particles g) - j)) dummy
                 else particles g ! j)" if "j < length (particles g)" for j
    using fillSlots_nth [OF assms(3) b that, of x dz] that assms(2)
    by (simp flip: assms(2))
  show ?thesis
    unfolding eq using nth by (simp add: fillSlots_length)
qed

text \<open>
  Claim C4, as amended. On a tower that was cleared, received \<open>N \<ge> 1\<close> particles and had its
  clusters generated, \<open>fillUpWithDummyParticles dummyStartX dummyDistZ\<close> succeeds and leaves
  the \<open>N\<close> sorted particles, the clusters and the counts as they are; the \<open>k\<close>-th slot from the
  end of the last cluster (\<open>k = 1, \<dots>, (4 - N mod 4) mod 4\<close>) holds the dummy prototype (id 0,
  velocity 0) moved to the position \<open>(dummyStartX, 0, dummyDistZ * k)\<close>. The position
  \<open>(DBL_MAX, DBL_MAX, DBL_MAX)\<close> of the prototype is overwritten; how far the dummies are from
  the real particles is decided by the two arguments. The product is taken in the reals.
\<close>

theorem fillUpWithDummyParticles_positions:
  assumes "ps \<noteq> []"
    and "t = foldl (\<lambda>t p. towerAddParticle p t) (clear old) ps"
    and "N = length ps"
  shows "\<exists>t'. fillUpWithDummyParticles dummyStartX dummyDistZ (fst (generateClusters t)) = Inr t' \<and>
           clusters t' = clusters (fst (generateClusters t)) \<and>
           numDummyParticles t' = (4 - N mod 4) mod 4 \<and>
           length (particles t') = clusterSize * ((N + 3) div 4) \<and>
           take N (particles t') = sortByDim 2 ps \<and>
           (\<forall>k. 1 \<le> k \<and> k \<le> (4 - N mod 4) mod 4 \<longrightarrow>
              particles t' ! (length (particles t') - k)
                = \<lparr>getR = (dummyStartX, 0, dummyDistZ * real k), getV = (0, 0, 0), getID = 0\<rparr>)"
proof -
  let ?nd = "(4 - length ps mod 4) mod 4"
  let ?nc = "(length ps + 3) div 4"
  let ?g = "\<lparr>clusters = map (\<lambda>index. 4 * index) [0..<?nc],
         particles = sortByDim 2 ps @ replicate ?nd (last (sortByDim 2 ps)),
         numDummyParticles = ?nd\<rparr>"
  have t: "t = \<lparr>clusters = [], particles = ps, numDummyParticles = 0\<rparr>"
    by (simp add: assms(2) towerOf_eq)
  have g: "fst (generateClusters t) = ?g"
    unfolding t generateClusters_fresh [OF assms(1)] by simp
  have len: "length ps + ?nd = 4 * ?nc"
    using pad_arith(2,3) [of "length ps"] by simp
  have pos: "0 < ?nc"
    using assms(1) by (cases ps) simp_all
  have c1: "clusters ?g \<noteq> []"
    using pos by simp
  have c2: "clusters ?g ! (length (clusters ?g) - 1) + clusterSize = length (particles ?g)"
    using pos len by (simp add: clusterSize_def length_sortByDim algebra_simps)
  have c3: "numDummyParticles ?g \<le> clusterSize"
    by (simp add: clusterSize_def)
  obtain t' where t': "fillUpWithDummyParticles dummyStartX dummyDistZ ?g = Inr t'"
    and cl: "clusters t' = clusters ?g"
    and nd: "numDummyParticles t' = numDummyParticles ?g"
    and ln: "length (particles t') = length (particles ?g)"
    and nth: "\<And>j. j < length (particles ?g) \<Longrightarrow>
              particles t' ! j =
                (if length (particles ?g) - numDummyParticles ?g \<le> j
                 then setR (dummyStartX, 0, dummyDistZ * real (length (particles ?g) - j)) dummy
                 else particles ?g ! j)"
    using fillUp_full_last_cluster [OF c1 c2 c3, of dummyStartX dummyDistZ] by blast
  have lg: "length (particles ?g) = 4 * ?nc"
    using len by (simp add: length_sortByDim)
  have actual: "length (particles ?g) - numDummyParticles ?g = length ps"
    using len by (simp add: length_sortByDim)
  have tk: "take (length ps) (particles t') = sortByDim 2 ps"
  proof (rule nth_equalityI)
    show "length (take (length ps) (particles t')) = length (sortByDim 2 ps)"
      using ln lg len by (simp add: length_sortByDim)
  next
    fix j assume "j < length (take (length ps) (particles t'))"
    then have j: "j < length ps" by simp
    then have "j < length (particles ?g)" using lg len by linarith
    from nth [OF this] j actual
    show "take (length ps) (particles t') ! j = sortByDim 2 ps ! j"
      by (simp add: nth_append length_sortByDim)
  qed
  have dm: "particles t' ! (length (particles t') - k)
                = \<lparr>getR = (dummyStartX, 0, dummyDistZ * real k), getV = (0, 0, 0), getID = 0\<rparr>"
    if "1 \<le> k \<and> k \<le> ?nd" for k
  proof -
    have kl: "k \<le> length (particles ?g)" using that lg len by linarith
    have j: "length (particles ?g) - k < length (particles ?g)"
      using that kl by linarith
    have ge: "length (particles ?g) - numDummyParticles ?g \<le> length (particles ?g) - k"
      using that by (intro diff_le_mono2) simp
    have kk: "length (particles ?g) - (length (particles ?g) - k) = k"
      using kl by simp
    have "particles t' ! (length (particles ?g) - k)
            = setR (dummyStartX, 0,
                dummyDistZ * real (length (particles ?g) - (length (particles ?g) - k))) dummy"
      using nth [OF j] ge by (simp only: if_True)
    then have "particles t' ! (length (particles ?g) - k)
            = setR (dummyStartX, 0, dummyDistZ * real k) dummy"
      by (simp only: kk)
    then show ?thesis
      unfolding ln by (simp add: setR_def dummy_def)
  qed
  have s1: "fillUpWithDummyParticles dummyStartX dummyDistZ (fst (generateClusters t)) = Inr t'"
    unfolding g by (rule t')
  have s2: "clusters t' = clusters (fst (generateClusters t))"
    unfolding g by (rule cl)
  have s3: "numDummyParticles t' = (4 - N mod 4) mod 4"
    unfolding assms(3) using nd by simp
  have s4: "length (particles t') = clusterSize * ((N + 3) div 4)"
    unfolding assms(3) clusterSize_def using ln lg by simp
  have s5: "take N (particles t') = sortByDim 2 ps"
    unfolding assms(3) by (rule tk)
  have s6: "\<forall>k. 1 \<le> k \<and> k \<le> (4 - N mod 4) mod 4 \<longrightarrow>
              particles t' ! (length (particles t') - k)
                = \<lparr>getR = (dummyStartX, 0, dummyDistZ * real k), getV = (0, 0, 0), getID = 0\<rparr>"
    unfolding assms(3) using dm by blast
  from s1 s2 s3 s4 s5 s6 show ?thesis by blast
qed

theorem fillUpWithDummyParticles_positions_witness:
  "\<exists>t'. fillUpWithDummyParticles 1000 2
          (fst (generateClusters (foldl (\<lambda>t p. towerAddParticle p t) (clear emptyTower)
             [\<lparr>getR = (0, 0, 3), getV = (0, 0, 0), getID = 1\<rparr>,
              \<lparr>getR = (0, 0, 1), getV = (0, 0, 0), getID = 2\<rparr>]))) = Inr t' \<and>
        length (particles t') = 4 \<and>
        particles t' ! 3 = \<lparr>getR = (1000, 0, 2), getV = (0, 0, 0), getID = 0\<rparr> \<and>
        particles t' ! 2 = \<lparr>getR = (1000, 0, 4), getV = (0, 0, 0), getID = 0\<rparr>"
proof -
  let ?ps = "[\<lparr>getR = (0, 0, 3), getV = (0, 0, 0), getID = 1\<rparr>,
              \<lparr>getR = (0, 0, 1), getV = (0, 0, 0), getID = 2::nat\<rparr>]"
  have ne: "?ps \<noteq> []" by simp
  have n: "(2::nat) = length ?ps" by simp
  obtain t' where a: "fillUpWithDummyParticles 1000 2
          (fst (generateClusters (foldl (\<lambda>t p. towerAddParticle p t) (clear emptyTower) ?ps))) = Inr t'"
    and l: "length (particles t') = clusterSize * ((2 + 3) div 4)"
    and d: "\<forall>k. 1 \<le> k \<and> k \<le> (4 - 2 mod 4) mod 4 \<longrightarrow>
              particles t' ! (length (particles t') - k)
                = \<lparr>getR = (1000, 0, 2 * real k), getV = (0, 0, 0), getID = 0\<rparr>"
    using fillUpWithDummyParticles_positions [OF ne refl n,
        where old = emptyTower and dummyStartX = 1000 and dummyDistZ = 2] by blast
  have l4: "length (particles t') = 4"
    using l by (simp add: clusterSize_def)
  from d [rule_format, of 1] d [rule_format, of 2] l4 a show ?thesis
    by simp
qed

text \<open>
  Counterexample to claim C4 as stated: a tower of three particles gets one dummy. Even when
  the caller passes \<open>DBL_MAX\<close> for both arguments, the dummy ends up at
  \<open>(DBL_MAX, 0, DBL_MAX)\<close>, which is not the position \<open>(DBL_MAX, DBL_MAX, DBL_MAX)\<close>.
\<close>

theorem fillUpWithDummyParticles_counterexample:
  "fillUpWithDummyParticles DBL_MAX DBL_MAX
      (fst (generateClusters (foldl (\<lambda>t p. towerAddParticle p t) (clear emptyTower)
         [\<lparr>getR = (0, 0, 3), getV = (0, 0, 0), getID = 1\<rparr>,
          \<lparr>getR = (0, 0, 1), getV = (0, 0, 0), getID = 2\<rparr>,
          \<lparr>getR = (0, 0, 2), getV = (0, 0, 0), getID = 3\<rparr>])))
     = Inr \<lparr>clusters = [0],
            particles =
              [\<lparr>getR = (0, 0, 1), getV = (0, 0, 0), getID = 2\<rparr>,
               \<lparr>getR = (0, 0, 2), getV = (0, 0, 0), getID = 3\<rparr>,
               \<lparr>getR = (0, 0, 3), getV = (0, 0, 0), getID = 1\<rparr>,
               \<lparr>getR = (DBL_MAX, 0, DBL_MAX), getV = (0, 0, 0), getID = 0\<rparr>],
            numDummyParticles = 1\<rparr> \<and>
   (DBL_MAX, 0, DBL_MAX) \<noteq> (DBL_MAX, DBL_MAX, DBL_MAX)"
proof -
  have "DBL_MAX \<noteq> 0"
    by (simp add: DBL_MAX_def)
  then show ?thesis
    by (simp add: fillUpWithDummyParticles_def generateClusters_def towerAddParticle_def
        clear_def emptyTower_def getNumActualParticles_def getNumClusters_def sortByDim_def
        clusterSize_def fillSlot_def setR_def dummy_def Let_def)
qed

subsection \<open>PredictiveTuning\<close>

lemma unat_ucast_32_64: "unat (ucast (x :: 32 word) :: 64 word) = unat x"
proof -
  have "unat x < 2 ^ 32" using unsigned_less [of x] by simp
  then have "unat x < 2 ^ 64" by simp
  then show ?thesis
    by (simp add: unsigned_ucast_eq take_bit_nat_eq_self)
qed

lemma linePredictionOf_nondecreasing:
  fixes i1 i2 t1 t2 :: "64 word" and b :: "32 word"
  assumes "i1 < i2" and "t1 \<le> t2" and "i2 \<le> ucast b"
    and "unat t2 + (unat t2 - unat t1) div (unat i2 - unat i1) * (unat b - unat i2) < 2 ^ 64"
  shows "\<exists>p. linePredictionOf b (history @ [(i1, t1), (i2, t2)]) = Inr p \<and>
           unat p = unat t2 + (unat t2 - unat t1) div (unat i2 - unat i1) * (unat b - unat i2)"
proof -
  let ?g = "(t2 - t1) div (i2 - i1)"
  let ?d = "ucast b - i2"
  have ne: "i2 - i1 \<noteq> 0" using assms(1) by simp
  have ui: "unat (i2 - i1) = unat i2 - unat i1"
    using assms(1) by (simp add: unat_sub)
  have ut: "unat (t2 - t1) = unat t2 - unat t1"
    using assms(2) by (simp add: unat_sub)
  have ug: "unat ?g = (unat t2 - unat t1) div (unat i2 - unat i1)"
    by (simp add: unat_div ui ut)
  have ud: "unat ?d = unat b - unat i2"
    using assms(3) by (simp add: unat_sub unat_ucast_32_64)
  have m: "unat ?g * unat ?d < 2 ^ 64"
    using assms(4) unfolding ug ud by simp
  have um: "unat (?g * ?d) = unat ?g * unat ?d"
    using m unat_mult_lem [of ?g ?d] by simp
  have a: "unat t2 + unat (?g * ?d) < 2 ^ 64"
    using assms(4) unfolding um ug ud by simp
  have ua: "unat (t2 + ?g * ?d) = unat t2 + unat (?g * ?d)"
    using a unat_add_lem [of t2 "?g * ?d"] by simp
  have "linePredictionOf b (history @ [(i1, t1), (i2, t2)]) = Inr (t2 + ?g * ?d)"
    using ne by (simp add: linePredictionOf_def Let_def nth_append)
  then show ?thesis
    using ua um ug ud by simp
qed

text \<open>
  Claim C6 at a history with decreasing times. The last two samples are \<open>(0, 100)\<close> and
  \<open>(2, 90)\<close> and the phase begins at iteration 3: the line through the two samples gives
  \<open>90 + ((90 - 100) / (2 - 0)) * (3 - 2) = 85\<close>. The code divides the difference \<open>-10\<close> as the
  unsigned number \<open>2^64 - 10\<close> and predicts \<open>2^63 + 85\<close>.
\<close>

theorem linePrediction_decreasing_times:
  "(case calculatePredictions
      \<lparr>searchSpace = [1::nat], currentConfig = (InSearchSpace, 0),
       traversalTimesStorage = (\<lambda>c. [(0, 100), (2, 90)]),
       configurationPredictions = [], optimalSearchSpace = [],
       tooLongNotTestedSearchSpace = [], validSearchSpace = [1],
       lastTest = (\<lambda>c. 1),
       tuningIterationsCounter = 2, iterationBeginTuningPhase = 3,
       validConfigurationFound = False, relativeOptimumRange = 12 / 10,
       maxTuningIterationsWithoutTest = 5\<rparr> of
      Inl e \<Rightarrow> []
    | Inr s' \<Rightarrow> configurationPredictions s') = [(1, 9223372036854775893)] \<and>
   linePredictionOf 3 [(0, 100), (2, 90)] = Inr (2 ^ 63 + 85)"
  by (simp add: calculatePredictions_def linePredictionOf_def assign_def Let_def)
































subsection \<open>C08BasedTraversal\<close>

lemma threeToOneD_add:
  "threeToOneD (x + a) (y + b) (z + c) d = threeToOneD x y z d + threeToOneD a b c d"
  by (cases d) (simp add: algebra_simps)

lemma threeToOneD_inj:
  assumes "x < dx" "x' < dx" "y < dy" "y' < dy"
  shows "threeToOneD x y z (dx, dy, dz) = threeToOneD x' y' z' (dx, dy, dz)
           \<longleftrightarrow> x = x' \<and> y = y' \<and> z = z'"
proof
  assume eq: "threeToOneD x y z (dx, dy, dz) = threeToOneD x' y' z' (dx, dy, dz)"
  then have e: "(z * dy + y) * dx + x = (z' * dy + y') * dx + x'" by simp
  from e have "((z * dy + y) * dx + x) mod dx = ((z' * dy + y') * dx + x') mod dx" by simp
  then have x: "x = x'" using assms(1,2) by simp
  from e have "((z * dy + y) * dx + x) div dx = ((z' * dy + y') * dx + x') div dx" by simp
  then have e2: "z * dy + y = z' * dy + y'" using assms(1,2) by simp
  then have "(z * dy + y) mod dy = (z' * dy + y') mod dy" by simp
  then have y: "y = y'" using assms(3,4) by simp
  from e2 have "(z * dy + y) div dy = (z' * dy + y') div dy" by simp
  then have z: "z = z'" using assms(3,4) by simp
  from x y z show "x = x' \<and> y = y' \<and> z = z'" by simp
next
  assume "x = x' \<and> y = y' \<and> z = z'"
  then show "threeToOneD x y z (dx, dy, dz) = threeToOneD x' y' z' (dx, dy, dz)" by simp
qed

lemma threeToOneD_less:
  assumes "x < dx" "y < dy" "z < dz"
  shows "threeToOneD x y z (dx, dy, dz) < dx * dy * dz"
proof -
  have "z * dy + y < dz * dy"
  proof -
    have "z * dy + y < z * dy + dy" using assms(2) by simp
    also have "\<dots> = (z + 1) * dy" by simp
    also have "\<dots> \<le> dz * dy" using assms(3) by (intro mult_le_mono1) simp
    finally show ?thesis .
  qed
  then have "(z * dy + y) + 1 \<le> dz * dy" by simp
  then have "((z * dy + y) + 1) * dx \<le> dz * dy * dx" by (intro mult_le_mono1)
  moreover have "(z * dy + y) * dx + x < ((z * dy + y) + 1) * dx" using assms(1) by simp
  ultimately show ?thesis by (simp add: mult.commute mult.left_commute)
qed

lemma cellIndex_inj:
  assumes "inGrid d c" and "inGrid d c'"
  shows "cellIndex d c = cellIndex d c' \<longleftrightarrow> c = c'"
proof -
  obtain dx dy dz where d: "d = (dx, dy, dz)" by (cases d)
  obtain x y z where c: "c = (x, y, z)" by (cases c)
  obtain x' y' z' where c': "c' = (x', y', z')" by (cases c')
  show ?thesis
    using assms threeToOneD_inj [of x dx x' y dy y' z dz z']
    unfolding d c c' by simp
qed

lemma pairCount_baseTasks:
  assumes "isBaseCell d b" and "inGrid d c" and "inGrid d c'"
  shows "pairCount (cellIndex d c) (cellIndex d c') (baseTasks d b)
         = (if adjacent c c' \<and> minCorner c c' = b then 1 else 0)"
proof -
  obtain dx dy dz where d: "d = (dx, dy, dz)" by (cases d)
  obtain bx "by" bz where b: "b = (bx, by, bz)" by (cases b)
  obtain x y z where c: "c = (x, y, z)" by (cases c)
  obtain x' y' z' where c': "c' = (x', y', z')" by (cases c')
  show ?thesis
  proof (cases "adjacent c c'")
    case False
    then have "x + 1 < x' \<or> x' + 1 < x \<or> y + 1 < y' \<or> y' + 1 < y \<or> z + 1 < z' \<or> z' + 1 < z
        \<or> (x = x' \<and> y = y' \<and> z = z')"
      unfolding c c' by auto
    then have "pairCount (cellIndex d c) (cellIndex d c') (baseTasks d b) = 0"
      using assms unfolding d b c c'
      by (elim disjE; simp add: pairCount_def cellIndex_inj del: cellIndex.simps cong: conj_cong)
    with False show ?thesis by simp
  next
    case True
    then have X: "x = x' \<or> x' = x + 1 \<or> x = x' + 1"
      and Y: "y = y' \<or> y' = y + 1 \<or> y = y' + 1"
      and Z: "z = z' \<or> z' = z + 1 \<or> z = z' + 1"
      unfolding c c' by auto
    from True have ne: "\<not> (x = x' \<and> y = y' \<and> z = z')"
      unfolding c c' by auto
    have "pairCount (cellIndex d c) (cellIndex d c') (baseTasks d b)
         = (if minCorner c c' = b then 1 else 0)"
      using assms X Y Z ne unfolding d b c c'
      by (elim disjE; simp add: pairCount_def cellIndex_inj del: cellIndex.simps cong: conj_cong)
    with True show ?thesis by simp
  qed
qed

lemma selfCount_baseTasks:
  assumes "isBaseCell d b" and "inGrid d c"
  shows "selfCount (cellIndex d c) (baseTasks d b) = (if c = b then 1 else 0)"
proof -
  obtain dx dy dz where d: "d = (dx, dy, dz)" by (cases d)
  obtain bx "by" bz where b: "b = (bx, by, bz)" by (cases b)
  obtain x y z where c: "c = (x, y, z)" by (cases c)
  show ?thesis
    using assms unfolding d b c
    by (simp add: selfCount_def cellIndex_inj del: cellIndex.simps)
qed

lemma processPairs_step:
  assumes "x + 1 < dx" "y + 1 < dy" "z + 1 < dz"
    and "a \<le> 1" "b \<le> 1" "c \<le> 1" "a' \<le> 1" "b' \<le> 1" "c' \<le> 1"
  shows "processPairs (dx * dy * dz) (threeToOneD x y z (dx, dy, dz))
           ((threeToOneD a b c (dx, dy, dz), threeToOneD a' b' c' (dx, dy, dz)) # rest) calls
       = processPairs (dx * dy * dz) (threeToOneD x y z (dx, dy, dz)) rest
           (calls @ [if (a, b, c) = (a', b', c')
                     then ProcessCell (threeToOneD (x + a) (y + b) (z + c) (dx, dy, dz))
                     else ProcessCellPair (threeToOneD (x + a) (y + b) (z + c) (dx, dy, dz))
                            (threeToOneD (x + a') (y + b') (z + c') (dx, dy, dz))])"
proof -
  let ?d = "(dx, dy, dz)"
  have i1: "threeToOneD x y z ?d + threeToOneD a b c ?d = threeToOneD (x + a) (y + b) (z + c) ?d"
    by (rule threeToOneD_add [symmetric])
  have i2: "threeToOneD x y z ?d + threeToOneD a' b' c' ?d
              = threeToOneD (x + a') (y + b') (z + c') ?d"
    by (rule threeToOneD_add [symmetric])
  have l1: "threeToOneD (x + a) (y + b) (z + c) ?d < dx * dy * dz"
    using assms by (intro threeToOneD_less) simp_all
  have l2: "threeToOneD (x + a') (y + b') (z + c') ?d < dx * dy * dz"
    using assms by (intro threeToOneD_less) simp_all
  have eq: "threeToOneD (x + a) (y + b) (z + c) ?d = threeToOneD (x + a') (y + b') (z + c') ?d
              \<longleftrightarrow> (a, b, c) = (a', b', c')"
    using assms threeToOneD_inj [of "x + a" dx "x + a'" "y + b" dy "y + b'" "z + c" dz "z + c'"]
    by simp
  show ?thesis
    unfolding processPairs.simps i1 i2 using l1 l2 eq
    by (simp del: threeToOneD.simps)
qed

lemma processBaseCell_baseTasks:
  assumes "isBaseCell (dx, dy, dz) b"
  shows "processBaseCell (dx * dy * dz) (dx, dy, dz) (cellIndex (dx, dy, dz) b)
           = Inr (baseTasks (dx, dy, dz) b)"
proof -
  obtain x y z where b: "b = (x, y, z)" by (cases b)
  have v: "x + 1 < dx" "y + 1 < dy" "z + 1 < dz"
    using assms unfolding b by simp_all
  note step = processPairs_step [OF v]
  show ?thesis
    unfolding b processBaseCell_def computeOffsets_def Let_def cellIndex.simps
    by (simp add: step del: threeToOneD.simps processPairs.simps(2))
qed

lemma applyBaseStep_concat:
  assumes "\<forall>b\<in>set bs. isBaseCell (dx, dy, dz) b"
  shows "applyBaseStep (dx * dy * dz) (dx, dy, dz) bs
           = Inr (concat (map (baseTasks (dx, dy, dz)) bs))"
  using assms
proof (induction bs)
  case Nil
  then show ?case by simp
next
  case (Cons b bs)
  obtain x y z where b: "b = (x, y, z)" by (cases b)
  have "processBaseCell (dx * dy * dz) (dx, dy, dz) (cellIndex (dx, dy, dz) (x, y, z))
           = Inr (baseTasks (dx, dy, dz) (x, y, z))"
    using Cons.prems processBaseCell_baseTasks [of dx dy dz b] unfolding b by simp
  then have p: "processBaseCell (dx * dy * dz) (dx, dy, dz) (threeToOneD x y z (dx, dy, dz))
           = Inr (baseTasks (dx, dy, dz) (x, y, z))"
    by simp
  have r: "applyBaseStep (dx * dy * dz) (dx, dy, dz) bs
           = Inr (concat (map (baseTasks (dx, dy, dz)) bs))"
    using Cons by simp
  show ?case
    unfolding b applyBaseStep.simps p r by simp
qed

lemma pairCount_concat:
  "pairCount i j (concat (map f bs)) = sum_list (map (\<lambda>b. pairCount i j (f b)) bs)"
  by (induction bs) (simp_all add: pairCount_def)

lemma selfCount_concat:
  "selfCount i (concat (map f bs)) = sum_list (map (\<lambda>b. selfCount i (f b)) bs)"
  by (induction bs) (simp_all add: selfCount_def)

lemma sum_list_indicator:
  "distinct bs \<Longrightarrow>
     sum_list (map (\<lambda>b. if P \<and> m = b then 1 else 0) bs) = (if P \<and> m \<in> set bs then (1::nat) else 0)"
  by (induction bs) auto

lemma mem_baseCells:
  "(x, y, z) \<in> set (baseCells (dx, dy, dz)) \<longleftrightarrow> x + 1 < dx \<and> y + 1 < dy \<and> z + 1 < dz"
  by (force simp: less_diff_conv)

lemma set_baseCells: "set (baseCells d) = {b. isBaseCell d b}"
proof -
  obtain dx dy dz where d: "d = (dx, dy, dz)" by (cases d)
  have "b \<in> set (baseCells (dx, dy, dz)) \<longleftrightarrow> isBaseCell (dx, dy, dz) b" for b
    using mem_baseCells [of "fst b" "fst (snd b)" "snd (snd b)" dx dy dz]
    by (cases b) simp
  then show ?thesis unfolding d by blast
qed

lemma distinct_concat_map:
  assumes "distinct zs" and "\<forall>z\<in>set zs. distinct (f z)"
    and "\<forall>z\<in>set zs. \<forall>z'\<in>set zs. z \<noteq> z' \<longrightarrow> set (f z) \<inter> set (f z') = {}"
  shows "distinct (concat (map f zs))"
  using assms
proof (induction zs)
  case Nil
  then show ?case by simp
next
  case (Cons z zs)
  have "distinct (concat (map f zs))"
    using Cons by simp
  moreover have "distinct (f z)" using Cons.prems(2) by simp
  moreover have "set (f z) \<inter> set (concat (map f zs)) = {}"
    using Cons.prems(1,3) by fastforce
  ultimately show ?case by simp
qed

lemma distinct_baseCells: "distinct (baseCells d)"
proof -
  obtain dx dy dz where d: "d = (dx, dy, dz)" by (cases d)
  have row: "distinct (map (\<lambda>x. (x, y, z)) [0..<dx - 1])" for y z :: nat
    by (simp add: distinct_map inj_on_def)
  have plane: "distinct (concat (map (\<lambda>y. map (\<lambda>x. (x, y, z)) [0..<dx - 1]) [0..<dy - 1]))"
    for z :: nat
  proof (rule distinct_concat_map)
    show "distinct [0..<dy - 1]" by simp
    show "\<forall>y\<in>set [0..<dy - 1]. distinct (map (\<lambda>x. (x, y, z)) [0..<dx - 1])"
      using row by blast
    show "\<forall>y\<in>set [0..<dy - 1]. \<forall>y'\<in>set [0..<dy - 1]. y \<noteq> y' \<longrightarrow>
            set (map (\<lambda>x. (x, y, z)) [0..<dx - 1]) \<inter> set (map (\<lambda>x. (x, y', z)) [0..<dx - 1]) = {}"
      by auto
  qed
  show ?thesis
    unfolding d baseCells.simps
  proof (rule distinct_concat_map)
    show "distinct [0..<dz - 1]" by simp
    show "\<forall>z\<in>set [0..<dz - 1].
            distinct (concat (map (\<lambda>y. map (\<lambda>x. (x, y, z)) [0..<dx - 1]) [0..<dy - 1]))"
      using plane by blast
    show "\<forall>z\<in>set [0..<dz - 1]. \<forall>z'\<in>set [0..<dz - 1]. z \<noteq> z' \<longrightarrow>
            set (concat (map (\<lambda>y. map (\<lambda>x. (x, y, z)) [0..<dx - 1]) [0..<dy - 1]))
              \<inter> set (concat (map (\<lambda>y. map (\<lambda>x. (x, y, z')) [0..<dx - 1]) [0..<dy - 1])) = {}"
      by auto
  qed
qed

lemma applyBaseStep_counts:
  assumes "tasks = concat (map (baseTasks d) (baseCells d))"
  shows "inGrid d c \<Longrightarrow> selfCount (cellIndex d c) tasks = (if isBaseCell d c then 1 else 0)"
    and "inGrid d c \<Longrightarrow> inGrid d c' \<Longrightarrow>
           pairCount (cellIndex d c) (cellIndex d c') tasks
             = (if adjacent c c' \<and> isBaseCell d (minCorner c c') then 1 else 0)"
proof -
  have bs: "\<forall>b\<in>set (baseCells d). isBaseCell d b"
    by (simp add: set_baseCells)
  {
    assume c: "inGrid d c"
    have "selfCount (cellIndex d c) tasks
            = sum_list (map (\<lambda>b. selfCount (cellIndex d c) (baseTasks d b)) (baseCells d))"
      unfolding assms by (rule selfCount_concat)
    also have "\<dots> = sum_list (map (\<lambda>b. if True \<and> c = b then 1 else 0) (baseCells d))"
      using bs c by (intro arg_cong [where f = sum_list] map_cong) (simp_all add: selfCount_baseTasks)
    also have "\<dots> = (if True \<and> c \<in> set (baseCells d) then 1 else 0)"
      by (rule sum_list_indicator [OF distinct_baseCells])
    finally show "selfCount (cellIndex d c) tasks = (if isBaseCell d c then 1 else 0)"
      by (simp add: set_baseCells)
  }
  {
    assume c: "inGrid d c" and c': "inGrid d c'"
    have "pairCount (cellIndex d c) (cellIndex d c') tasks
            = sum_list (map (\<lambda>b. pairCount (cellIndex d c) (cellIndex d c') (baseTasks d b))
                (baseCells d))"
      unfolding assms by (rule pairCount_concat)
    also have "\<dots> = sum_list (map (\<lambda>b. if adjacent c c' \<and> minCorner c c' = b then 1 else 0)
                (baseCells d))"
      using bs c c' by (intro arg_cong [where f = sum_list] map_cong) (simp_all add: pairCount_baseTasks)
    also have "\<dots> = (if adjacent c c' \<and> minCorner c c' \<in> set (baseCells d) then 1 else 0)"
      by (rule sum_list_indicator [OF distinct_baseCells])
    finally show "pairCount (cellIndex d c) (cellIndex d c') tasks
             = (if adjacent c c' \<and> isBaseCell d (minCorner c c') then 1 else 0)"
      by (simp add: set_baseCells)
  }
qed

text \<open>
  Claim C1, as amended. On a grid of \<open>dx * dy * dz\<close> cells, \<open>processBaseCell\<close> at a base cell
  \<open>b\<close> of the traversed range makes exactly the fourteen calls \<open>baseTasks\<close>: one
  \<open>processCell\<close> on \<open>b\<close> and thirteen \<open>processCellPair\<close> on cells of the forward 2x2x2 block
  of \<open>b\<close>. Applying it at every base cell of the range succeeds and schedules the self-cell
  task of a cell of the grid once if the cell is a base cell and never otherwise, and a
  pair of cells of the grid (in one of the two orders) once if the two cells are different
  3x3x3 neighbours whose component-wise minimum is a base cell, and never otherwise. The
  cells of the upper boundary layers are no base cells: their self-cell tasks, and the
  pairs that lie within one such layer, are not scheduled.
\<close>

theorem c08_base_step_covers:
  assumes "numCells = dx * dy * dz" and "d = (dx, dy, dz)"
  shows "(\<forall>b. isBaseCell d b \<longrightarrow>
            processBaseCell numCells d (cellIndex d b) = Inr (baseTasks d b) \<and>
            length (baseTasks d b) = 14 \<and>
            length (filter (\<lambda>t. \<exists>i. t = ProcessCell i) (baseTasks d b)) = 1 \<and>
            length (filter (\<lambda>t. \<exists>i j. t = ProcessCellPair i j) (baseTasks d b)) = 13) \<and>
         (\<exists>tasks. applyBaseStep numCells d (baseCells d) = Inr tasks \<and>
            (\<forall>c. inGrid d c \<longrightarrow>
               selfCount (cellIndex d c) tasks = (if isBaseCell d c then 1 else 0)) \<and>
            (\<forall>c c'. inGrid d c \<and> inGrid d c' \<longrightarrow>
               pairCount (cellIndex d c) (cellIndex d c') tasks
                 = (if adjacent c c' \<and> isBaseCell d (minCorner c c') then 1 else 0)))"
proof -
  have one: "processBaseCell numCells d (cellIndex d b) = Inr (baseTasks d b) \<and>
            length (baseTasks d b) = 14 \<and>
            length (filter (\<lambda>t. \<exists>i. t = ProcessCell i) (baseTasks d b)) = 1 \<and>
            length (filter (\<lambda>t. \<exists>i j. t = ProcessCellPair i j) (baseTasks d b)) = 13"
    if "isBaseCell d b" for b
  proof -
    obtain x y z where b: "b = (x, y, z)" by (cases b)
    have "processBaseCell numCells d (cellIndex d b) = Inr (baseTasks d b)"
      using that processBaseCell_baseTasks [of dx dy dz b] unfolding assms by simp
    then show ?thesis
      unfolding b assms(2) by (simp del: cellIndex.simps)
  qed
  let ?tasks = "concat (map (baseTasks d) (baseCells d))"
  have "\<forall>b\<in>set (baseCells (dx, dy, dz)). isBaseCell (dx, dy, dz) b"
    unfolding set_baseCells by blast
  then have run: "applyBaseStep numCells d (baseCells d) = Inr ?tasks"
    unfolding assms by (rule applyBaseStep_concat)
  from one run applyBaseStep_counts [OF refl, of d] show ?thesis
    by blast
qed

theorem c08_base_step_covers_witness:
  "processBaseCell 27 (3, 3, 3) 13
     = Inr [ProcessCell 13, ProcessCellPair 13 16, ProcessCellPair 16 22, ProcessCellPair 13 22,
            ProcessCellPair 13 25, ProcessCellPair 14 25, ProcessCellPair 14 16,
            ProcessCellPair 14 22, ProcessCellPair 13 14, ProcessCellPair 13 17,
            ProcessCellPair 17 22, ProcessCellPair 16 23, ProcessCellPair 13 23,
            ProcessCellPair 13 26] \<and>
   (\<exists>tasks. applyBaseStep 27 (3, 3, 3) (baseCells (3, 3, 3)) = Inr tasks \<and>
      selfCount 13 tasks = 1 \<and> pairCount 13 26 tasks = 1 \<and> pairCount 12 13 tasks = 1 \<and>
      selfCount 26 tasks = 0 \<and> pairCount 2 5 tasks = 0)"
proof -
  have n: "(27::nat) = 3 * 3 * 3" by simp
  let ?d = "(3, 3, 3) :: cell3"
  have one: "isBaseCell ?d b \<longrightarrow> processBaseCell 27 ?d (cellIndex ?d b) = Inr (baseTasks ?d b)"
    for b
    using c08_base_step_covers [OF n refl] by blast
  have all: "\<exists>tasks. applyBaseStep 27 ?d (baseCells ?d) = Inr tasks \<and>
            (\<forall>c. inGrid ?d c \<longrightarrow>
               selfCount (cellIndex ?d c) tasks = (if isBaseCell ?d c then 1 else 0)) \<and>
            (\<forall>c c'. inGrid ?d c \<and> inGrid ?d c' \<longrightarrow>
               pairCount (cellIndex ?d c) (cellIndex ?d c') tasks
                 = (if adjacent c c' \<and> isBaseCell ?d (minCorner c c') then 1 else 0))"
    using c08_base_step_covers [OF n refl] by blast
  from all obtain tasks where r: "applyBaseStep 27 ?d (baseCells ?d) = Inr tasks"
    and s: "\<And>c. inGrid ?d c \<Longrightarrow>
               selfCount (cellIndex ?d c) tasks = (if isBaseCell ?d c then 1 else 0)"
    and p: "\<And>c c'. inGrid ?d c \<Longrightarrow> inGrid ?d c' \<Longrightarrow>
               pairCount (cellIndex ?d c) (cellIndex ?d c') tasks
                 = (if adjacent c c' \<and> isBaseCell ?d (minCorner c c') then 1 else 0)"
    by blast
  have "selfCount 13 tasks = 1" using s [of "(1, 1, 1)"] by simp
  moreover have "pairCount 13 26 tasks = 1" using p [of "(1, 1, 1)" "(2, 2, 2)"] by simp
  moreover have "pairCount 12 13 tasks = 1" using p [of "(0, 1, 1)" "(1, 1, 1)"] by simp
  moreover have "selfCount 26 tasks = 0" using s [of "(2, 2, 2)"] by simp
  moreover have "pairCount 2 5 tasks = 0" using p [of "(2, 0, 0)" "(2, 1, 0)"] by (simp add: numeral_2_eq_2)
  moreover have "processBaseCell 27 ?d 13
     = Inr [ProcessCell 13, ProcessCellPair 13 16, ProcessCellPair 16 22, ProcessCellPair 13 22,
            ProcessCellPair 13 25, ProcessCellPair 14 25, ProcessCellPair 14 16,
            ProcessCellPair 14 22, ProcessCellPair 13 14, ProcessCellPair 13 17,
            ProcessCellPair 17 22, ProcessCellPair 16 23, ProcessCellPair 13 23,
            ProcessCellPair 13 26]"
    using one [of "(1, 1, 1)"] by simp
  ultimately show ?thesis using r by blast
qed

text \<open>
  Counterexample to claim C1 as stated: on the 3x3x3 grid the base cells are the cells with
  all coordinates below 2. The cells \<open>(2, 0, 0)\<close> and \<open>(2, 1, 0)\<close>, with the indices 2 and 5,
  are neighbours, but no call pairs them; and the cell \<open>(2, 2, 2)\<close>, with the index 26, is
  never the argument of \<open>processCell\<close>.
\<close>

theorem c08_base_step_counterexample:
  "(case applyBaseStep 27 (3, 3, 3) (baseCells (3, 3, 3)) of
      Inl e \<Rightarrow> False
    | Inr tasks \<Rightarrow>
        length tasks = 112 \<and> pairCount 2 5 tasks = 0 \<and> selfCount 26 tasks = 0) \<and>
   adjacent (2, 0, 0) (2, 1, 0) \<and> inGrid (3, 3, 3) (2, 0, 0) \<and> inGrid (3, 3, 3) (2, 1, 0) \<and>
   cellIndex (3, 3, 3) (2, 0, 0) = 2 \<and> cellIndex (3, 3, 3) (2, 1, 0) = 5 \<and>
   cellIndex (3, 3, 3) (2, 2, 2) = 26"
  by code_simp

subsection \<open>updateContainer\<close>


















lemma rebinned_fields:
  "cells rebinnedLinkedCells = [[0], [4], [1, 3], [2]]"
  "particleList rebinnedLinkedCells =
     [exampleParticle (-1/2) 7 halo, exampleParticle (3/2) 1 owned, exampleParticle (5/2) 2 owned,
      exampleParticle (3/2) 3 owned, exampleParticle (1/2) 9 owned]"
  "boxMin rebinnedLinkedCells = (0, 0, 0)" "boxMax rebinnedLinkedCells = (2, 1, 1)"
  "cellBlock rebinnedLinkedCells = exampleCellBlock"
  "dirty rebinnedLinkedCells = False" "dirtyIndex rebinnedLinkedCells = 5"
  by (simp_all add: rebinnedLinkedCells_def addParticleImpl_def push_back_def
        updateDirtyParticleReferences_def Let_def exampleLinkedCells_def exampleCellBlock_def
        exampleParticle_def addParticleReference_def upt_rec)

text \<open>The state after the particles were referenced again is consistent: the particle that
  the halo cell 3 now references lies outside the box.\<close>

lemma consistent_rebinned: "consistent rebinnedLinkedCells"
proof -
  let ?s = rebinnedLinkedCells
  have 1: "\<forall>pos. getContainingCell (cellBlock ?s) pos < length (cells ?s)"
    by (simp add: rebinned_fields exampleCellBlock_def del: split_paired_All)
  have 2: "\<forall>cellId pos. cellId < length (cells ?s) \<and> \<not> isHaloCell (cellBlock ?s) cellId \<and>
          inBox pos (fst (getCellBoundingBox (cellBlock ?s) cellId))
                    (snd (getCellBoundingBox (cellBlock ?s) cellId))
          \<longrightarrow> inBox pos (boxMin ?s) (boxMax ?s)"
    by (auto simp: rebinned_fields exampleCellBlock_def)
  have 3: "cells (deleteHaloParticles ?s) = [[], [4], [1, 3], []]"
    by (simp add: deleteHaloParticles_def clearHaloCells_def rebinned_fields exampleCellBlock_def upt_rec)
  have 4: "\<forall>i<length (particleList ?s). i \<notin> set (concat (cells (deleteHaloParticles ?s)))
          \<longrightarrow> isDummy (particleList ?s ! i)
               \<or> \<not> inBox (getR (particleList ?s ! i)) (boxMin ?s) (boxMax ?s)"
    unfolding 3 by (simp add: rebinned_fields exampleParticle_def less_Suc_eq numeral_eq_Suc)
  have 5: "\<forall>i\<in>set (concat (cells ?s)). i < length (particleList ?s)"
    "distinct (concat (cells ?s))" "\<not> dirty ?s" "dirtyIndex ?s = length (particleList ?s)"
    by (simp_all add: rebinned_fields)
  show ?thesis
    unfolding consistent_def using 1 2 4 5 by blast
qed





end
